theory Spec2Isabelle
  imports Main "HOL-Library.Sublist" "HOL-Library.Char_ord" "HOL-Library.List_Lexorder"
begin

section \<open>Values of the Go run time\<close>

text \<open>
  A Go \<^verbatim>\<open>error\<close> is an interface value; \<^verbatim>\<open>nil\<close> is \<open>None\<close>. The program tells three
  kinds of error apart: \<^verbatim>\<open>filepath.SkipDir\<close>, its own \<^verbatim>\<open>dummyError{}\<close>, and whatever the
  operating system or a library reports (carried as its message). \<open>NilDereference\<close> is
  not an error value of Go: it stands for the run-time panic of a method call on a nil
  \<^verbatim>\<open>os.FileInfo\<close>, which unwinds through \<^verbatim>\<open>filepath.Walk\<close> the way a returned error does.
\<close>

datatype go_error = SkipDir | dummyError | OtherError string | NilDereference

text \<open>What \<^verbatim>\<open>log.Fatal\<close> is given: a message, or an error value (which may be nil).\<close>

datatype logged = Text string | Error "go_error option"

text \<open>
  A function of the program either returns or ends the process through \<^verbatim>\<open>log.Fatal\<close>
  (exit status 1) or through a run-time panic.
\<close>

datatype 'a outcome = Return 'a | Fatal logged | Panic

section \<open>The directory tree\<close>

text \<open>
  An entry of the file system as \<^verbatim>\<open>filepath.Walk\<close> meets it: a non-directory, a directory
  with its entries in the order \<^verbatim>\<open>readDirNames\<close> returns them, a directory whose listing
  fails, or a name whose \<^verbatim>\<open>Lstat\<close> fails (both with the message of the operating
  system's error).
\<close>

datatype node =
    File string
  | Dir string "node list"
  | BadDir string string
  | BadEntry string string

fun Name :: "node \<Rightarrow> string" where
  "Name (File n) = n"
| "Name (Dir n es) = n"
| "Name (BadDir n e) = n"
| "Name (BadEntry n e) = n"

fun IsDir :: "node \<Rightarrow> bool" where
  "IsDir (File n) = False"
| "IsDir (Dir n es) = True"
| "IsDir (BadDir n e) = True"
| "IsDir (BadEntry n e) = False"

text \<open>\<^verbatim>\<open>os.FileInfo\<close>, as far as the program reads it: \<^verbatim>\<open>Name()\<close> and \<^verbatim>\<open>IsDir()\<close>.\<close>

type_synonym FileInfo = "string \<times> bool"

section \<open>Library functions the program calls\<close>

text \<open>\<^verbatim>\<open>filepath.Separator\<close> on Windows, the only platform the program builds for.\<close>

definition Separator :: char where
  "Separator = CHR 0x5C"

text \<open>\<^verbatim>\<open>strings.Count(s, substr)\<close>: the number of non-overlapping instances of substr in s.\<close>

function strings_Count :: "string \<Rightarrow> string \<Rightarrow> nat" where
  "strings_Count s substr =
     (if substr = [] then length s + 1
      else if s = [] then 0
      else if prefix substr s then 1 + strings_Count (drop (length substr) s) substr
      else strings_Count (tl s) substr)"
  by pat_completeness auto
termination
  by (relation "measure (\<lambda>(s, substr). length s)") auto

declare strings_Count.simps [simp del]

text \<open>
  \<^verbatim>\<open>filepath.Join\<close> is a parameter \<open>J\<close> of the model: it takes the directory's path and an
  entry name to the entry's path.

  \<^verbatim>\<open>filepath.Walk(root, walkFn)\<close> of the Go standard library, with the state the callback
  closes over passed explicitly. \<open>walk\<close> is the library's recursive helper and
  \<open>walk_names\<close> its loop over the names of a directory:
  \<^item> a non-directory is handed to the callback;
  \<^item> a directory is listed first, and the callback is called with the listing's error, if
    any; when either the listing or the callback fails, the callback's result is returned;
  \<^item> for each name, an entry whose \<^verbatim>\<open>Lstat\<close> fails is handed to the callback with a nil
    \<^verbatim>\<open>info\<close> and the error, and the loop ends unless the callback answers nil or
    \<^verbatim>\<open>SkipDir\<close>; any other entry is walked, and the loop ends on an error unless the
    entry is a directory and the error is \<^verbatim>\<open>SkipDir\<close>;
  \<^item> \<^verbatim>\<open>Walk\<close> itself handles a root whose \<^verbatim>\<open>Lstat\<close> fails like such an entry, and turns a
    final \<^verbatim>\<open>SkipDir\<close> into nil.
\<close>

type_synonym 's WalkFunc =
  "string \<Rightarrow> FileInfo option \<Rightarrow> go_error option \<Rightarrow> 's \<Rightarrow> go_error option \<times> 's"

fun walk :: "(string \<Rightarrow> string \<Rightarrow> string) \<Rightarrow> 's WalkFunc \<Rightarrow> string \<Rightarrow> node \<Rightarrow> 's
              \<Rightarrow> go_error option \<times> 's"
and walk_names :: "(string \<Rightarrow> string \<Rightarrow> string) \<Rightarrow> 's WalkFunc \<Rightarrow> string \<Rightarrow> node list \<Rightarrow> 's
              \<Rightarrow> go_error option \<times> 's" where
  "walk J walkFn path (File n) s = walkFn path (Some (n, False)) None s"
| "walk J walkFn path (BadDir n err) s =
     walkFn path (Some (n, True)) (Some (OtherError err)) s"
| "walk J walkFn path (BadEntry n err) s = walkFn path None (Some (OtherError err)) s"
| "walk J walkFn path (Dir n names) s =
     (case walkFn path (Some (n, True)) None s of
        (Some err1, s') \<Rightarrow> (Some err1, s')
      | (None, s') \<Rightarrow> walk_names J walkFn path names s')"
| "walk_names J walkFn path [] s = (None, s)"
| "walk_names J walkFn path (e # es) s =
     (let filename = J path (Name e) in
      case e of
        BadEntry n err \<Rightarrow>
          (case walkFn filename None (Some (OtherError err)) s of
             (Some x, s') \<Rightarrow>
               if x \<noteq> SkipDir then (Some x, s') else walk_names J walkFn path es s'
           | (None, s') \<Rightarrow> walk_names J walkFn path es s')
      | _ \<Rightarrow>
          (case walk J walkFn filename e s of
             (Some x, s') \<Rightarrow>
               if \<not> IsDir e \<or> x \<noteq> SkipDir then (Some x, s')
               else walk_names J walkFn path es s'
           | (None, s') \<Rightarrow> walk_names J walkFn path es s'))"

definition Walk :: "(string \<Rightarrow> string \<Rightarrow> string) \<Rightarrow> 's WalkFunc \<Rightarrow> string \<Rightarrow> node \<Rightarrow> 's
              \<Rightarrow> go_error option \<times> 's" where
  "Walk J walkFn root nd s =
     (case walk J walkFn root nd s of
        (err, s') \<Rightarrow> if err = Some SkipDir then (None, s') else (err, s'))"

section \<open>The bounded tree search\<close>

definition depthCutoff :: nat where
  "depthCutoff = 6"

definition sep :: string where
  "sep = [Separator]"

text \<open>
  The callback of \<^verbatim>\<open>deepFind\<close>; its state is the variable \<^verbatim>\<open>foundPath\<close>. \<^verbatim>\<open>Walk\<close>
  passes a nil \<^verbatim>\<open>info\<close> only together with an error, so the last branch (the call
  \<^verbatim>\<open>info.IsDir()\<close> on nil) is never reached.
\<close>

definition deepFind_fn :: "string WalkFunc" where
  "deepFind_fn path info err foundPath =
     (case err of
        Some e \<Rightarrow> (Some e, foundPath)
      | None \<Rightarrow>
          (let depth = strings_Count path sep in
           if depth > depthCutoff then (Some SkipDir, foundPath)
           else (case info of
                   Some (nm, isdir) \<Rightarrow>
                     if \<not> isdir \<and> nm = ''Unity.exe'' then (Some dummyError, path)
                     else (None, foundPath)
                 | None \<Rightarrow> (Some NilDereference, foundPath))))"

text \<open>
  \<^verbatim>\<open>deepFind(root, name)\<close>. \<open>nd\<close> is what the file system holds at \<open>root\<close>. The
  parameter \<open>name\<close> is not used by the body, as in the source.
\<close>

definition deepFind :: "(string \<Rightarrow> string \<Rightarrow> string) \<Rightarrow> string \<Rightarrow> node \<Rightarrow> string \<Rightarrow> string outcome"
  where
  "deepFind J root nd name =
     (case Walk J deepFind_fn root nd [] of
        (err, foundPath) \<Rightarrow>
          if err = Some NilDereference then Panic
          else if err \<noteq> Some dummyError then Fatal (Error err)
          else Return foundPath)"

section \<open>Configuration\<close>

record Config =
  ProgramDir :: string
  DirPattern :: string
  Versions :: "string \<rightharpoonup> string"

definition configFile :: string where
  "configFile = ''config.toml''"

definition defaultConfig :: Config where
  "defaultConfig =
     \<lparr>ProgramDir = ''C:/Program Files'', DirPattern = ''^Unity(.+)$'', Versions = Map.empty\<rparr>"

text \<open>\<^verbatim>\<open>configdir.Config\<close>: the folder the configuration file lives in.\<close>

record configdir_Config =
  Path :: string

section \<open>The libraries and the operating system\<close>

text \<open>
  The library functions whose code is not part of the program are parameters of the
  model:
  \<^item> \<^verbatim>\<open>filepath.Join\<close> and \<^verbatim>\<open>path.Join\<close>, of a path and one more element;
  \<^item> \<^verbatim>\<open>regexp.Compile\<close>, giving for a pattern its \<^verbatim>\<open>FindStringSubmatch\<close> (the list of
    the match and its capture groups, empty when there is no match), or nothing when the
    pattern does not compile;
  \<^item> the TOML encoder and decoder for a \<^verbatim>\<open>Config\<close>, each failing with a message.
\<close>

record library =
  filepath_Join :: "string \<Rightarrow> string \<Rightarrow> string"
  path_Join :: "string \<Rightarrow> string \<Rightarrow> string"
  regexp_Compile :: "string \<Rightarrow> (string \<Rightarrow> string list) option"
  toml_Encode :: "Config \<Rightarrow> string + string"
  toml_Decode :: "string \<Rightarrow> string + Config"

text \<open>
  The state of the machine the program runs on: the listing of each directory
  (\<^verbatim>\<open>ioutil.ReadDir\<close>), the regular files, whether a file can be created, and whether a
  command can be started.
\<close>

datatype file_state = Absent | Unreadable string | Contents string

record world =
  ReadDir :: "string \<Rightarrow> string + node list"
  Files :: "string \<Rightarrow> file_state"
  Create :: "string \<Rightarrow> string option"
  Start :: "string \<Rightarrow> string list \<Rightarrow> string option"

text \<open>\<^verbatim>\<open>isExists\<close>: \<^verbatim>\<open>os.Stat\<close> succeeds.\<close>

definition isExists :: "world \<Rightarrow> string \<Rightarrow> bool" where
  "isExists w path = (Files w path \<noteq> Absent)"

definition ReadFile :: "world \<Rightarrow> string \<Rightarrow> string + string" where
  "ReadFile w path =
     (case Files w path of
        Absent \<Rightarrow> Inl ''The system cannot find the file specified.''
      | Unreadable err \<Rightarrow> Inl err
      | Contents data \<Rightarrow> Inr data)"

section \<open>The version of a project\<close>

text \<open>
  \<^verbatim>\<open>versionPattern\<close> is \<^verbatim>\<open>m_EditorVersion: (.+)\<close>. Its matcher is written out: the leftmost
  place where the literal text is followed by at least one character other than a line
  feed; the group \<^verbatim>\<open>(.+)\<close> is greedy and \<^verbatim>\<open>.\<close> matches every byte but the line feed, so
  the capture runs to the next line feed or to the end of the data.
  \<^verbatim>\<open>FindSubmatch\<close> returns the match and the capture, or nil (the empty list).
\<close>

definition marker :: string where
  "marker = ''m_EditorVersion: ''"

definition LF :: char where
  "LF = CHR 0x0A"

definition CR :: char where
  "CR = CHR 0x0D"

fun FindSubmatch_versionPattern :: "string \<Rightarrow> string list" where
  "FindSubmatch_versionPattern [] = []"
| "FindSubmatch_versionPattern (c # cs) =
     (let capture = takeWhile (\<lambda>b. b \<noteq> LF) (drop (length marker) (c # cs)) in
      if prefix marker (c # cs) \<and> capture \<noteq> [] then [marker @ capture, capture]
      else FindSubmatch_versionPattern cs)"

definition no_field :: string where
  "no_field = ''ProjectVersion.txt doesn'' @ [CHR 0x27] @ ''t have m_EditorVersion''"

definition getProjectVersion :: "library \<Rightarrow> world \<Rightarrow> string \<Rightarrow> string outcome" where
  "getProjectVersion lib w projectPath =
     (let p = filepath_Join lib projectPath ''ProjectSettings/ProjectVersion.txt'' in
      if \<not> isExists w p then Fatal (Text ''No ProjectVersion.txt'')
      else (case ReadFile w p of
              Inl err \<Rightarrow> Fatal (Error (Some (OtherError err)))
            | Inr data \<Rightarrow>
                (let s = FindSubmatch_versionPattern data in
                 if length s < 2 then Fatal (Text no_field) else Return (s ! 1))))"

text \<open>The path of the metadata file that \<^verbatim>\<open>getProjectVersion\<close> reads.\<close>

definition versionFile :: "library \<Rightarrow> string \<Rightarrow> string" where
  "versionFile lib projectPath =
     filepath_Join lib projectPath ''ProjectSettings/ProjectVersion.txt''"

section \<open>Opening a project\<close>

text \<open>\<^verbatim>\<open>exec.Command(name, arg...)\<close>.\<close>

datatype command = Command string "string list"

text \<open>\<^verbatim>\<open>openProject\<close> returns the command it has started.\<close>

definition openProject :: "library \<Rightarrow> world \<Rightarrow> Config \<Rightarrow> string \<Rightarrow> command outcome" where
  "openProject lib w config path =
     (case getProjectVersion lib w path of
        Fatal l \<Rightarrow> Fatal l
      | Panic \<Rightarrow> Panic
      | Return version \<Rightarrow>
          (case Versions config version of
             None \<Rightarrow> Fatal (Text ''The version not found'')
           | Some exe \<Rightarrow>
               (case Start w exe [''-projectPath'', path] of
                  Some err \<Rightarrow> Fatal (Error (Some (OtherError err)))
                | None \<Rightarrow> Return (Command exe [''-projectPath'', path]))))"

section \<open>The ordered version keys\<close>

text \<open>
  \<^verbatim>\<open>getVersionKeys\<close>. The order in which \<^verbatim>\<open>range\<close> yields the keys of a Go map is not
  fixed; it is the argument \<open>order\<close>. \<^verbatim>\<open>sort.Strings\<close> sorts ascending by \<^verbatim>\<open><\<close> on strings,
  which compares byte by byte.
\<close>

fun getVersionKeys_range :: "string list \<Rightarrow> string list \<times> string list \<Rightarrow> string list \<times> string list"
  where
  "getVersionKeys_range [] (keys, newKeys) = (keys, newKeys)"
| "getVersionKeys_range (key # rest) (keys, newKeys) =
     (if prefix ''20'' key then getVersionKeys_range rest (keys, newKeys @ [key])
      else getVersionKeys_range rest (keys @ [key], newKeys))"

definition getVersionKeys :: "string list \<Rightarrow> string list" where
  "getVersionKeys order =
     (case getVersionKeys_range order ([], []) of
        (keys, newKeys) \<Rightarrow> sort keys @ sort newKeys)"

text \<open>\<open>order\<close> is an order in which the keys of the configuration can be iterated.\<close>

definition iteration_of :: "Config \<Rightarrow> string list \<Rightarrow> bool" where
  "iteration_of config order = (distinct order \<and> set order = dom (Versions config))"

section \<open>Scanning the installation root\<close>

text \<open>
  The loop of \<^verbatim>\<open>loadVersions\<close> over the listing; its state is the map \<^verbatim>\<open>versions\<close> and the
  lines written by \<^verbatim>\<open>log.Println\<close>.
\<close>

fun loadVersions_range ::
  "library \<Rightarrow> (string \<Rightarrow> string list) \<Rightarrow> Config \<Rightarrow> node list
   \<Rightarrow> (string \<rightharpoonup> string) \<times> string list \<Rightarrow> ((string \<rightharpoonup> string) \<times> string list) outcome" where
  "loadVersions_range lib r config [] (versions, lg) = Return (versions, lg)"
| "loadVersions_range lib r config (file # files) (versions, lg) =
     (if \<not> IsDir file then loadVersions_range lib r config files (versions, lg)
      else
        (let name = Name file; s = r name in
         if length s \<ge> 2 then
           (let p = path_Join lib (ProgramDir config) name in
            case deepFind (filepath_Join lib) p file ''Unity.exe'' of
              Fatal l \<Rightarrow> Fatal l
            | Panic \<Rightarrow> Panic
            | Return exe \<Rightarrow>
                if exe = [] then
                  loadVersions_range lib r config files
                    (versions, lg @ [name @ '' has no Unity.exe!''])
                else loadVersions_range lib r config files (versions(s ! 1 \<mapsto> exe), lg))
         else loadVersions_range lib r config files (versions, lg)))"

definition loadVersions ::
  "library \<Rightarrow> world \<Rightarrow> Config \<Rightarrow> ((string \<rightharpoonup> string) \<times> string list) outcome" where
  "loadVersions lib w config =
     (case regexp_Compile lib (DirPattern config) of
        None \<Rightarrow> Panic
      | Some r \<Rightarrow>
          (case ReadDir w (ProgramDir config) of
             Inl err \<Rightarrow> Fatal (Error (Some (OtherError err)))
           | Inr files \<Rightarrow> loadVersions_range lib r config files (Map.empty, [])))"

section \<open>Rebuilding, persisting and loading the configuration\<close>

definition configPath :: "library \<Rightarrow> configdir_Config \<Rightarrow> string" where
  "configPath lib configDir = filepath_Join lib (Path configDir) configFile"

text \<open>
  The method \<^verbatim>\<open>output\<close> of \<^verbatim>\<open>Config\<close>: create the file in the configuration folder and
  encode into it.
\<close>

definition Config_output :: "library \<Rightarrow> world \<Rightarrow> Config \<Rightarrow> configdir_Config \<Rightarrow> world outcome" where
  "Config_output lib w config configDir =
     (case Create w (configPath lib configDir) of
        Some err \<Rightarrow> Fatal (Error (Some (OtherError err)))
      | None \<Rightarrow>
          (case toml_Encode lib config of
             Inl err \<Rightarrow> Fatal (Error (Some (OtherError err)))
           | Inr doc \<Rightarrow>
               Return (w\<lparr>Files := (Files w)(configPath lib configDir := Contents doc)\<rparr>)))"

text \<open>\<^verbatim>\<open>initialize\<close> returns the configuration it has built and the machine's new state.\<close>

definition initialize :: "library \<Rightarrow> world \<Rightarrow> configdir_Config \<Rightarrow> (Config \<times> world) outcome" where
  "initialize lib w configDir =
     (let config = defaultConfig in
      case loadVersions lib w config of
        Fatal l \<Rightarrow> Fatal l
      | Panic \<Rightarrow> Panic
      | Return (versions, lg) \<Rightarrow>
          (let config = config\<lparr>Versions := versions\<rparr> in
           case Config_output lib w config configDir of
             Fatal l \<Rightarrow> Fatal l
           | Panic \<Rightarrow> Panic
           | Return w' \<Rightarrow> Return (config, w')))"

text \<open>\<^verbatim>\<open>toml.DecodeFile\<close> into a zero \<^verbatim>\<open>Config\<close>.\<close>

definition toml_DecodeFile :: "library \<Rightarrow> world \<Rightarrow> string \<Rightarrow> string + Config" where
  "toml_DecodeFile lib w path =
     (case ReadFile w path of
        Inl err \<Rightarrow> Inl err
      | Inr doc \<Rightarrow> toml_Decode lib doc)"

text \<open>
  The start of \<^verbatim>\<open>main\<close>, up to the point where the configuration is in hand: rebuilt when
  \<^verbatim>\<open>--reload\<close> is given or the file cannot be decoded, loaded otherwise.
\<close>

definition main_config ::
  "library \<Rightarrow> world \<Rightarrow> configdir_Config \<Rightarrow> bool \<Rightarrow> (Config \<times> world) outcome" where
  "main_config lib w configDir reload =
     (if reload then initialize lib w configDir
      else (case toml_DecodeFile lib w (configPath lib configDir) of
              Inl err \<Rightarrow> initialize lib w configDir
            | Inr config \<Rightarrow> Return (config, w)))"


section \<open>The persisted document\<close>

text \<open>
  Modelled from the spec: the TOML encoder and decoder (\<^verbatim>\<open>toml.NewEncoder(file).Encode\<close> and
  \<^verbatim>\<open>toml.DecodeFile\<close> of the library the program imports) are not among the sources. The
  document is the one the specification gives for the persisted configuration file:
  \<^verbatim>\<open>ProgramDir = "<installation root>"\<close>, \<^verbatim>\<open>DirPattern = "<pattern>"\<close>, the table header
  \<^verbatim>\<open>[Versions]\<close>, and one line \<^verbatim>\<open>"<version string>" = "<absolute executable path>"\<close> for
  each version, the keys in ascending order; every line ends in a line feed. Inside the
  quotes a backslash and a double quote are written after a backslash, and a line feed is
  written as backslash and \<^verbatim>\<open>n\<close>. The decoder reads exactly such documents and takes
  every other text for malformed.
\<close>

definition DQ :: char where
  "DQ = CHR 0x22"

definition Backslash :: char where
  "Backslash = CHR 0x5C"

fun escape :: "string \<Rightarrow> string" where
  "escape [] = []"
| "escape (c # cs) =
     (if c = Backslash \<or> c = DQ then Backslash # c # escape cs
      else if c = LF then Backslash # CHR ''n'' # escape cs
      else c # escape cs)"

definition quoted :: "string \<Rightarrow> string" where
  "quoted s = DQ # escape s @ [DQ]"

definition setting_line :: "string \<Rightarrow> string \<Rightarrow> string" where
  "setting_line name v = name @ '' = '' @ quoted v"

definition entry_line :: "string \<Rightarrow> string \<Rightarrow> string" where
  "entry_line k v = quoted k @ '' = '' @ quoted v"

definition unlines :: "string list \<Rightarrow> string" where
  "unlines ls = concat (map (\<lambda>l. l @ [LF]) ls)"

definition Encode :: "Config \<Rightarrow> string" where
  "Encode config =
     unlines
       ([setting_line ''ProgramDir'' (ProgramDir config),
         setting_line ''DirPattern'' (DirPattern config),
         ''[Versions]'']
        @ map (\<lambda>k. entry_line k (the (Versions config k)))
            (sorted_list_of_set (dom (Versions config))))"

text \<open>The text up to the closing quote, unescaped, and what follows the quote.\<close>

fun read_body :: "string \<Rightarrow> (string \<times> string) option" where
  "read_body [] = None"
| "read_body (c # cs) =
     (if c = DQ then Some ([], cs)
      else if c = LF then None
      else if c = Backslash then
        (case cs of
           [] \<Rightarrow> None
         | d # ds \<Rightarrow>
             if d = Backslash \<or> d = DQ then map_option (apfst ((#) d)) (read_body ds)
             else if d = CHR ''n'' then map_option (apfst ((#) LF)) (read_body ds)
             else None)
      else map_option (apfst ((#) c)) (read_body cs))"

definition read_quoted :: "string \<Rightarrow> (string \<times> string) option" where
  "read_quoted s = (case s of [] \<Rightarrow> None | c # cs \<Rightarrow> if c = DQ then read_body cs else None)"

definition expect :: "string \<Rightarrow> string \<Rightarrow> string option" where
  "expect lit s = (if prefix lit s then Some (drop (length lit) s) else None)"

definition read_setting :: "string \<Rightarrow> string \<Rightarrow> string option" where
  "read_setting name l =
     (case expect (name @ '' = '') l of
        None \<Rightarrow> None
      | Some r \<Rightarrow>
          (case read_quoted r of
             None \<Rightarrow> None
           | Some (v, rest) \<Rightarrow> if rest = [] then Some v else None))"

definition read_entry :: "string \<Rightarrow> (string \<times> string) option" where
  "read_entry l =
     (case read_quoted l of
        None \<Rightarrow> None
      | Some (k, r) \<Rightarrow>
          (case expect '' = '' r of
             None \<Rightarrow> None
           | Some r' \<Rightarrow>
               (case read_quoted r' of
                  None \<Rightarrow> None
                | Some (v, rest) \<Rightarrow> if rest = [] then Some (k, v) else None)))"

fun read_entries :: "string list \<Rightarrow> (string \<rightharpoonup> string) \<Rightarrow> (string \<rightharpoonup> string) option" where
  "read_entries [] m = Some m"
| "read_entries (l # ls) m =
     (case read_entry l of
        None \<Rightarrow> None
      | Some (k, v) \<Rightarrow> read_entries ls (m(k \<mapsto> v)))"

text \<open>The lines of a text; \<open>acc\<close> is the line read so far.\<close>

fun split_lines :: "string \<Rightarrow> string \<Rightarrow> string list" where
  "split_lines acc [] = (if acc = [] then [] else [acc])"
| "split_lines acc (c # cs) =
     (if c = LF then acc # split_lines [] cs else split_lines (acc @ [c]) cs)"

definition malformed :: string where
  "malformed = ''toml: the document is malformed''"

definition Decode :: "string \<Rightarrow> string + Config" where
  "Decode doc =
     (case split_lines [] doc of
        l1 # l2 # l3 # ls \<Rightarrow>
          (case read_setting ''ProgramDir'' l1 of
             None \<Rightarrow> Inl malformed
           | Some pd \<Rightarrow>
               (case read_setting ''DirPattern'' l2 of
                  None \<Rightarrow> Inl malformed
                | Some dp \<Rightarrow>
                    if l3 \<noteq> ''[Versions]'' then Inl malformed
                    else (case read_entries ls Map.empty of
                            None \<Rightarrow> Inl malformed
                          | Some m \<Rightarrow>
                              Inr \<lparr>ProgramDir = pd, DirPattern = dp, Versions = m\<rparr>)))
      | _ \<Rightarrow> Inl malformed)"

text \<open>A library whose TOML encoder and decoder are the ones above.\<close>

definition spec_toml :: "library \<Rightarrow> library" where
  "spec_toml lib = lib\<lparr>toml_Encode := (\<lambda>config. Inr (Encode config)), toml_Decode := Decode\<rparr>"


section \<open>Predicates used in the statements\<close>

text \<open>No listing and no \<^verbatim>\<open>Lstat\<close> fails anywhere in the tree.\<close>

fun io_ok :: "node \<Rightarrow> bool" where
  "io_ok (File n) = True"
| "io_ok (Dir n es) = (\<forall>e\<in>set es. io_ok e)"
| "io_ok (BadDir n err) = False"
| "io_ok (BadEntry n err) = False"

text \<open>
  \<open>J\<close> gives the entries of one directory paths with the same number of separators,
  throughout the tree at path \<open>p\<close>. \<^verbatim>\<open>filepath.Join\<close> does, since an entry name holds no
  separator.
\<close>

fun level :: "(string \<Rightarrow> string \<Rightarrow> string) \<Rightarrow> string \<Rightarrow> node \<Rightarrow> bool" where
  "level J p (Dir n es) =
     (\<forall>e\<in>set es.
        (\<forall>e'\<in>set es. strings_Count (J p (Name e)) sep = strings_Count (J p (Name e')) sep)
        \<and> level J (J p (Name e)) e)"
| "level J p nd = True"

text \<open>
  The tree at path \<open>p\<close> holds a file named \<^verbatim>\<open>Unity.exe\<close> whose path, and the path of
  every directory from \<open>p\<close> down to it, has at most \<open>depthCutoff\<close> separators.
\<close>

fun target_within :: "(string \<Rightarrow> string \<Rightarrow> string) \<Rightarrow> string \<Rightarrow> node \<Rightarrow> bool" where
  "target_within J p (File n) = (strings_Count p sep \<le> depthCutoff \<and> n = ''Unity.exe'')"
| "target_within J p (Dir n es) =
     (strings_Count p sep \<le> depthCutoff \<and> (\<exists>e\<in>set es. target_within J (J p (Name e)) e))"
| "target_within J p nd = False"

text \<open>
  The paths under which a walk from \<open>p\<close> meets the files named \<^verbatim>\<open>Unity.exe\<close> of the tree,
  in the order of the walk.
\<close>

fun targets :: "(string \<Rightarrow> string \<Rightarrow> string) \<Rightarrow> string \<Rightarrow> node \<Rightarrow> string list" where
  "targets J p (File n) = (if n = ''Unity.exe'' then [p] else [])"
| "targets J p (Dir n es) = concat (map (\<lambda>e. targets J (J p (Name e)) e) es)"
| "targets J p nd = []"

text \<open>
  What a call of the callback, or a walk, may leave behind when it starts with
  \<^verbatim>\<open>foundPath = s\<close>: either the sentinel and a found path that is one of \<open>T\<close> and within
  the cutoff, or another result and \<^verbatim>\<open>foundPath\<close> untouched.
\<close>

definition found_ok :: "string set \<Rightarrow> string \<Rightarrow> go_error option \<times> string \<Rightarrow> bool" where
  "found_ok T s r =
     (case r of (err, s') \<Rightarrow>
        (err = Some dummyError \<and> strings_Count s' sep \<le> depthCutoff \<and> s' \<in> T) \<or>
        (err \<noteq> Some dummyError \<and> err \<noteq> Some NilDereference \<and> s' = s))"

text \<open>A walk that found nothing: nil or \<^verbatim>\<open>SkipDir\<close>, and \<^verbatim>\<open>foundPath\<close> untouched.\<close>

definition missed :: "string \<Rightarrow> go_error option \<times> string \<Rightarrow> bool" where
  "missed s r = (r = (None, s) \<or> r = (Some SkipDir, s))"

text \<open>
  The data hold the text \<^verbatim>\<open>m_EditorVersion: \<close> followed by a character other than a line
  feed: a line the pattern matches.
\<close>

definition has_field :: "string \<Rightarrow> bool" where
  "has_field data = (\<exists>pre c rest. data = pre @ marker @ c # rest \<and> c \<noteq> LF)"

text \<open>The pattern matches at the very start of the data.\<close>

definition starts_field :: "string \<Rightarrow> bool" where
  "starts_field d =
     (prefix marker d \<and> takeWhile (\<lambda>b. b \<noteq> LF) (drop (length marker) d) \<noteq> [])"

text \<open>
  No entry that the walk from \<open>p\<close> can meet fails: below a directory whose path holds
  more than \<open>depthCutoff\<close> separators nothing is asked for, since the walk does not
  descend into it.
\<close>

fun readable :: "(string \<Rightarrow> string \<Rightarrow> string) \<Rightarrow> string \<Rightarrow> node \<Rightarrow> bool" where
  "readable J p (File n) = True"
| "readable J p (Dir n es) =
     (depthCutoff < strings_Count p sep \<or> (\<forall>e\<in>set es. readable J (J p (Name e)) e))"
| "readable J p (BadDir n err) = False"
| "readable J p (BadEntry n err) = False"



section \<open>A concrete machine\<close>

text \<open>
  Instances of the parameters, for evaluating the model on examples.
  \<open>plain_Join\<close> is \<^verbatim>\<open>filepath.Join\<close> on Windows for two elements that need no further
  cleaning (no empty, dot or dot-dot element): they are joined by a separator and every
  slash becomes a separator. \<open>slash_Join\<close> is \<^verbatim>\<open>path.Join\<close> likewise, joining by a
  slash. \<open>FindStringSubmatch_default\<close> is the matcher of the default pattern
  \<^verbatim>\<open>^Unity(.+)$\<close>. The example encoder and decoder know one document only.
\<close>

definition FromSlash :: "string \<Rightarrow> string" where
  "FromSlash s = map (\<lambda>c. if c = CHR ''/'' then Separator else c) s"

definition plain_Join :: "string \<Rightarrow> string \<Rightarrow> string" where
  "plain_Join p n = FromSlash (p @ sep @ n)"

definition slash_Join :: "string \<Rightarrow> string \<Rightarrow> string" where
  "slash_Join p n = p @ ''/'' @ n"

definition FindStringSubmatch_default :: "string \<Rightarrow> string list" where
  "FindStringSubmatch_default name =
     (let rest = drop 5 name in
      if prefix ''Unity'' name \<and> rest \<noteq> [] \<and> LF \<notin> set rest then [name, rest] else [])"

definition unity_2019 :: node where
  "unity_2019 = Dir ''Unity2019.4'' [Dir ''Editor'' [File ''Data.dll'', File ''Unity.exe'']]"

definition unity_2019_exe :: string where
  "unity_2019_exe =
     ''C:'' @ sep @ ''Program Files'' @ sep @ ''Unity2019.4'' @ sep @ ''Editor'' @ sep
       @ ''Unity.exe''"

text \<open>A directory whose path holds six separators.\<close>

definition six_deep :: string where
  "six_deep = ''C:'' @ sep @ ''a'' @ sep @ ''b'' @ sep @ ''c'' @ sep @ ''d'' @ sep @ ''e''
     @ sep @ ''f''"

definition unity_hub :: node where
  "unity_hub = Dir ''Unity Hub'' [File ''Unity Hub.exe'']"

definition example_config :: Config where
  "example_config = defaultConfig\<lparr>Versions := [''2019.4'' \<mapsto> unity_2019_exe]\<rparr>"

text \<open>A configuration with the four keys of the ordering example.\<close>

definition four_versions :: Config where
  "four_versions =
     defaultConfig\<lparr>Versions :=
       [''2021.1'' \<mapsto> ''a'', ''5.6'' \<mapsto> ''b'', ''2019.4'' \<mapsto> ''c'', ''4.7'' \<mapsto> ''d'']\<rparr>"

definition example_lib :: library where
  "example_lib =
     \<lparr>filepath_Join = plain_Join,
      path_Join = slash_Join,
      regexp_Compile =
        (\<lambda>pattern. if pattern = ''^Unity(.+)$'' then Some FindStringSubmatch_default else None),
      toml_Encode = (\<lambda>config. Inr ''example document''),
      toml_Decode =
        (\<lambda>doc. if doc = ''example document'' then Inr example_config
              else Inl ''toml: cannot decode'')\<rparr>"

text \<open>
  A machine whose installation root has the given listing and whose project \<^verbatim>\<open>proj\<close> has
  the given \<^verbatim>\<open>ProjectVersion.txt\<close>; every file can be created and every command started.
\<close>

definition machine :: "node list \<Rightarrow> file_state \<Rightarrow> world" where
  "machine listing version_file =
     \<lparr>ReadDir =
        (\<lambda>dir. if dir = ''C:/Program Files'' then Inr listing
              else Inl ''The system cannot find the path specified.''),
      Files =
        (\<lambda>path. if path = plain_Join ''proj'' ''ProjectSettings/ProjectVersion.txt''
               then version_file else Absent),
      Create = (\<lambda>path. None),
      Start = (\<lambda>name arg. None)\<rparr>"

text \<open>
  The configuration of the resolution example: the one version \<^verbatim>\<open>2021.1.0f1\<close>, at
  \<^verbatim>\<open>/path/to/App\<close>.
\<close>

definition spec_config :: Config where
  "spec_config = defaultConfig\<lparr>Versions := [''2021.1.0f1'' \<mapsto> ''/path/to/App'']\<rparr>"

text \<open>The configuration folder of the examples.\<close>

definition example_dir :: configdir_Config where
  "example_dir = \<lparr>Path = ''cfg''\<rparr>"




text \<open>A second installation, of version 5.6.\<close>

definition unity_56 :: node where
  "unity_56 = Dir ''Unity5.6'' [Dir ''Editor'' [File ''Unity.exe'']]"

definition unity_56_exe :: string where
  "unity_56_exe =
     ''C:'' @ sep @ ''Program Files'' @ sep @ ''Unity5.6'' @ sep @ ''Editor'' @ sep
       @ ''Unity.exe''"

text \<open>
  A listing with a directory that does not match, a file named like an installation, and
  the installations of the versions 2019.4 and 5.6.
\<close>

definition two_installations :: "node list" where
  "two_installations =
     [Dir ''Git'' [File ''Unity.exe''], File ''Unity2018.1'', unity_2019, unity_56]"


section \<open>Lemmas: the bounded tree search\<close>

text \<open>With the one-character separator, \<^verbatim>\<open>strings.Count\<close> counts that character.\<close>

lemma strings_Count_sep: "strings_Count s sep = count_list s Separator"
proof (induction s)
  case Nil
  show ?case by (subst strings_Count.simps) (simp add: sep_def)
next
  case (Cons c cs)
  have "strings_Count (c # cs) sep =
      (if c = Separator then 1 + strings_Count cs sep else strings_Count cs sep)"
    by (subst strings_Count.simps) (simp add: sep_def)
  with Cons show ?case by simp
qed

lemma deepFind_fn_File:
  "found_ok (set (targets J path (File n))) s (deepFind_fn path (Some (n, False)) None s)"
  by (auto simp: found_ok_def deepFind_fn_def Let_def)

lemma deepFind_fn_Dir: "deepFind_fn path (Some (n, True)) None s = (None, s) \<or>
    deepFind_fn path (Some (n, True)) None s = (Some SkipDir, s)"
  by (auto simp: deepFind_fn_def Let_def)

lemma deepFind_fn_err: "deepFind_fn path info (Some e) s = (Some e, s)"
  by (simp add: deepFind_fn_def)

lemma found_ok_err: "found_ok T s (Some (OtherError e), s)"
  by (simp add: found_ok_def)

lemma found_ok_SkipDir: "found_ok T s (Some SkipDir, s)"
  by (simp add: found_ok_def)

lemma found_ok_None: "found_ok T s (None, s)"
  by (simp add: found_ok_def)

lemma found_okD: "found_ok T s (x, s') \<Longrightarrow> x \<noteq> Some dummyError \<Longrightarrow> s' = s"
  by (auto simp: found_ok_def)

lemma found_ok_mono: "found_ok T s r \<Longrightarrow> T \<subseteq> T' \<Longrightarrow> found_ok T' s r"
  by (auto simp: found_ok_def)

lemma walk_names_found_ok:
  assumes "\<And>e p s. e \<in> set es \<Longrightarrow> found_ok (set (targets J p e)) s (walk J deepFind_fn p e s)"
  shows "found_ok (\<Union>e\<in>set es. set (targets J (J path (Name e)) e)) s
           (walk_names J deepFind_fn path es s)"
  using assms
proof (induction es)
  case Nil
  show ?case by (simp add: found_ok_None)
next
  case (Cons e es)
  let ?T = "\<Union>e\<in>set (e # es). set (targets J (J path (Name e)) e)"
  have "found_ok (\<Union>e\<in>set es. set (targets J (J path (Name e)) e)) s
      (walk_names J deepFind_fn path es s)"
    using Cons by simp
  then have tl: "found_ok ?T s (walk_names J deepFind_fn path es s)"
    by (rule found_ok_mono) auto
  have "found_ok (set (targets J (J path (Name e)) e)) s (walk J deepFind_fn (J path (Name e)) e s)"
    using Cons.prems by simp
  then have hd: "found_ok ?T s (walk J deepFind_fn (J path (Name e)) e s)"
    by (rule found_ok_mono) auto
  obtain x s' where w: "walk J deepFind_fn (J path (Name e)) e s = (x, s')"
    by (cases "walk J deepFind_fn (J path (Name e)) e s")
  show ?case
  proof (cases "x = Some dummyError")
    case True
    with hd w show ?thesis
      by (cases e) (auto simp: deepFind_fn_err)
  next
    case False
    with hd w have "s' = s" by (auto dest: found_okD)
    with hd w tl False show ?thesis
      by (cases e) (auto simp: deepFind_fn_err found_ok_err split: option.splits)
  qed
qed

lemma walk_found_ok: "found_ok (set (targets J path nd)) s (walk J deepFind_fn path nd s)"
proof (induction nd arbitrary: path s)
  case (File n)
  show ?case using deepFind_fn_File [of J path n s] by simp
next
  case (Dir n es)
  have "found_ok (\<Union>e\<in>set es. set (targets J (J path (Name e)) e)) s
      (walk_names J deepFind_fn path es s)"
    using Dir by (intro walk_names_found_ok) simp
  then have "found_ok (set (targets J path (Dir n es))) s (walk_names J deepFind_fn path es s)"
    by simp
  with deepFind_fn_Dir [of path n s] show ?case
    by (auto simp: found_ok_SkipDir)
next
  case (BadDir n err)
  show ?case by (simp add: deepFind_fn_err found_ok_err)
next
  case (BadEntry n err)
  show ?case by (simp add: deepFind_fn_err found_ok_err)
qed

text \<open>
  A path the search returns is the path of a file named \<^verbatim>\<open>Unity.exe\<close> of the tree, and
  holds at most \<open>depthCutoff\<close> separators.
\<close>

lemma deepFind_Return_depth:
  "deepFind J root nd name = Return p \<Longrightarrow>
     strings_Count p sep \<le> depthCutoff \<and> p \<in> set (targets J root nd)"
  using walk_found_ok [of J root nd "[]"]
  by (auto simp: deepFind_def Walk_def found_ok_def split: prod.splits if_splits)

text \<open>The nil dereference in the callback is never reached.\<close>

lemma deepFind_no_Panic: "deepFind J root nd name \<noteq> Panic"
  using walk_found_ok [of J root nd "[]"]
  by (auto simp: deepFind_def Walk_def found_ok_def split: prod.splits if_splits)

lemma target_within_depth: "target_within J p nd \<Longrightarrow> strings_Count p sep \<le> depthCutoff"
  by (cases nd) auto

lemma walk_names_missed:
  assumes "\<And>e s. e \<in> set es \<Longrightarrow> missed s (walk J deepFind_fn (J p (Name e)) e s)"
    and "\<forall>e\<in>set es. io_ok e"
  shows "missed s (walk_names J deepFind_fn p es s)"
  using assms
proof (induction es)
  case Nil
  show ?case by (simp add: missed_def)
next
  case (Cons e es)
  have tl: "missed s (walk_names J deepFind_fn p es s)"
    using Cons by simp
  have hd: "missed s (walk J deepFind_fn (J p (Name e)) e s)"
    using Cons.prems by simp
  have ok: "io_ok e" using Cons.prems by simp
  from hd tl ok show ?case
    by (cases e) (auto simp: missed_def)
qed

lemma walk_names_found:
  assumes miss: "\<And>e s. e \<in> set es \<Longrightarrow> \<not> target_within J (J p (Name e)) e
                   \<Longrightarrow> missed s (walk J deepFind_fn (J p (Name e)) e s)"
    and hit: "\<And>e s. e \<in> set es \<Longrightarrow> target_within J (J p (Name e)) e
                   \<Longrightarrow> \<exists>s'. walk J deepFind_fn (J p (Name e)) e s = (Some dummyError, s')"
    and ok: "\<forall>e\<in>set es. io_ok e"
    and lev: "\<forall>e\<in>set es. strings_Count (J p (Name e)) sep \<le> depthCutoff"
    and ex: "\<exists>e\<in>set es. target_within J (J p (Name e)) e"
  shows "\<exists>s'. walk_names J deepFind_fn p es s = (Some dummyError, s')"
  using assms
proof (induction es)
  case Nil
  then show ?case by simp
next
  case (Cons e es)
  have oke: "io_ok e" using Cons.prems(3) by simp
  show ?case
  proof (cases "target_within J (J p (Name e)) e")
    case True
    then obtain s' where "walk J deepFind_fn (J p (Name e)) e s = (Some dummyError, s')"
      using Cons.prems(2) [of e s] by auto
    with oke show ?thesis by (cases e) auto
  next
    case False
    then have m: "missed s (walk J deepFind_fn (J p (Name e)) e s)"
      using Cons.prems(1) [of e s] by simp
    from False Cons.prems(5) have ex': "\<exists>e\<in>set es. target_within J (J p (Name e)) e"
      by auto
    have tl: "\<exists>s'. walk_names J deepFind_fn p es s = (Some dummyError, s')"
      using Cons.prems(1,2,3,4) ex' by (intro Cons.IH) auto
    have d: "strings_Count (J p (Name e)) sep \<le> depthCutoff"
      using Cons.prems(4) by simp
    show ?thesis
    proof (cases e)
      case (File n)
      with d False have "walk J deepFind_fn (J p (Name e)) e s = (None, s)"
        by (auto simp: deepFind_fn_def)
      with File tl show ?thesis by simp
    next
      case (Dir n ns)
      with m tl show ?thesis by (auto simp: missed_def)
    next
      case (BadDir n err)
      with oke show ?thesis by simp
    next
      case (BadEntry n err)
      with oke show ?thesis by simp
    qed
  qed
qed

lemma walk_outcome:
  "io_ok nd \<Longrightarrow>
     (\<not> target_within J p nd \<longrightarrow> missed s (walk J deepFind_fn p nd s)) \<and>
     (level J p nd \<longrightarrow> target_within J p nd \<longrightarrow>
        (\<exists>s'. walk J deepFind_fn p nd s = (Some dummyError, s')))"
proof (induction nd arbitrary: p s)
  case (File n)
  show ?case by (auto simp: deepFind_fn_def missed_def)
next
  case (Dir n es)
  have ok: "\<forall>e\<in>set es. io_ok e" using Dir.prems by simp
  show ?case
  proof (intro conjI impI)
    assume nt: "\<not> target_within J p (Dir n es)"
    show "missed s (walk J deepFind_fn p (Dir n es) s)"
    proof (cases "strings_Count p sep \<le> depthCutoff")
      case True
      with nt have "\<forall>e\<in>set es. \<not> target_within J (J p (Name e)) e" by simp
      then have "missed s (walk_names J deepFind_fn p es s)"
        using Dir.IH ok by (intro walk_names_missed) auto
      with True show ?thesis by (simp add: deepFind_fn_def)
    next
      case False
      then show ?thesis by (simp add: deepFind_fn_def missed_def)
    qed
  next
    assume lv: "level J p (Dir n es)" and t: "target_within J p (Dir n es)"
    from t have d: "strings_Count p sep \<le> depthCutoff"
      and ex: "\<exists>e\<in>set es. target_within J (J p (Name e)) e" by auto
    from ex obtain e0 where e0: "e0 \<in> set es" "target_within J (J p (Name e0)) e0" by auto
    then have d0: "strings_Count (J p (Name e0)) sep \<le> depthCutoff"
      by (auto dest: target_within_depth)
    from lv have same: "\<forall>e\<in>set es. \<forall>e'\<in>set es.
        strings_Count (J p (Name e)) sep = strings_Count (J p (Name e')) sep"
      by (simp only: level.simps) blast
    have lev: "\<forall>e\<in>set es. strings_Count (J p (Name e)) sep \<le> depthCutoff"
    proof
      fix e assume "e \<in> set es"
      with same e0(1) have "strings_Count (J p (Name e)) sep = strings_Count (J p (Name e0)) sep"
        by blast
      with d0 show "strings_Count (J p (Name e)) sep \<le> depthCutoff" by simp
    qed
    from lv have lvs: "\<forall>e\<in>set es. level J (J p (Name e)) e"
      by (simp only: level.simps) blast
    have "\<exists>s'. walk_names J deepFind_fn p es s = (Some dummyError, s')"
    proof (rule walk_names_found [OF _ _ ok lev ex])
      fix e s assume "e \<in> set es" "\<not> target_within J (J p (Name e)) e"
      then show "missed s (walk J deepFind_fn (J p (Name e)) e s)"
        using Dir.IH ok by blast
    next
      fix e s assume "e \<in> set es" "target_within J (J p (Name e)) e"
      then show "\<exists>s'. walk J deepFind_fn (J p (Name e)) e s = (Some dummyError, s')"
        using Dir.IH ok lvs by blast
    qed
    with d show "\<exists>s'. walk J deepFind_fn p (Dir n es) s = (Some dummyError, s')"
      by (simp add: deepFind_fn_def)
  qed
next
  case (BadDir n err)
  then show ?case by simp
next
  case (BadEntry n err)
  then show ?case by simp
qed

lemma deepFind_found:
  assumes "io_ok nd" "level J root nd" "target_within J root nd"
  shows "\<exists>p. deepFind J root nd name = Return p \<and> strings_Count p sep \<le> depthCutoff \<and>
           p \<in> set (targets J root nd)"
proof -
  from assms obtain s' where "walk J deepFind_fn root nd [] = (Some dummyError, s')"
    using walk_outcome [of nd J root "[]"] by auto
  then have "deepFind J root nd name = Return s'"
    by (simp add: deepFind_def Walk_def)
  then show ?thesis using deepFind_Return_depth by blast
qed

text \<open>
  When nothing is found, \<^verbatim>\<open>Walk\<close> returns nil, which is not \<^verbatim>\<open>dummyError{}\<close>: the search
  ends in \<^verbatim>\<open>log.Fatal(nil)\<close>.
\<close>

lemma deepFind_missing:
  "io_ok nd \<Longrightarrow> \<not> target_within J root nd \<Longrightarrow> deepFind J root nd name = Fatal (Error None)"
  using walk_outcome [of nd J root "[]"]
  by (auto simp: deepFind_def Walk_def missed_def)

text \<open>
  Without a file named \<^verbatim>\<open>Unity.exe\<close> in reach, the walk never ends with the sentinel,
  whether or not the tree can be read: the search ends in \<^verbatim>\<open>log.Fatal\<close>.
\<close>

lemma walk_names_no_target:
  assumes "\<And>e s. e \<in> set es \<Longrightarrow> fst (walk J deepFind_fn (J p (Name e)) e s) \<noteq> Some dummyError"
  shows "fst (walk_names J deepFind_fn p es s) \<noteq> Some dummyError"
  using assms
proof (induction es arbitrary: s)
  case Nil
  show ?case by simp
next
  case (Cons e es)
  have tl: "fst (walk_names J deepFind_fn p es s') \<noteq> Some dummyError" for s'
    using Cons by simp
  have hd: "fst (walk J deepFind_fn (J p (Name e)) e s) \<noteq> Some dummyError"
    using Cons.prems by simp
  obtain x s' where w: "walk J deepFind_fn (J p (Name e)) e s = (x, s')"
    by (cases "walk J deepFind_fn (J p (Name e)) e s")
  with hd tl [of s'] tl [of s] show ?case
    by (cases e) (auto simp: deepFind_fn_err split: option.splits)
qed

lemma walk_no_target:
  "\<not> target_within J p nd \<Longrightarrow> fst (walk J deepFind_fn p nd s) \<noteq> Some dummyError"
proof (induction nd arbitrary: p s)
  case (File n)
  then show ?case by (auto simp: deepFind_fn_def)
next
  case (Dir n es)
  show ?case
  proof (cases "strings_Count p sep \<le> depthCutoff")
    case True
    with Dir.prems have "\<forall>e\<in>set es. \<not> target_within J (J p (Name e)) e" by simp
    then have "fst (walk_names J deepFind_fn p es s) \<noteq> Some dummyError"
      using Dir.IH by (intro walk_names_no_target) auto
    with deepFind_fn_Dir [of p n s] show ?thesis by auto
  next
    case False
    then show ?thesis by (simp add: deepFind_fn_def)
  qed
next
  case (BadDir n err)
  show ?case by (simp add: deepFind_fn_err)
next
  case (BadEntry n err)
  show ?case by (simp add: deepFind_fn_err)
qed

lemma deepFind_no_target:
  assumes "\<not> target_within J root nd"
  shows "\<exists>l. deepFind J root nd name = Fatal l"
proof -
  from assms have "fst (walk J deepFind_fn root nd []) \<noteq> Some dummyError"
    by (rule walk_no_target)
  then have "deepFind J root nd name \<noteq> Return p" for p
    by (auto simp: deepFind_def Walk_def split: prod.splits if_splits)
  with deepFind_no_Panic [of J root nd name] show ?thesis
    by (cases "deepFind J root nd name") auto
qed



text \<open>Evaluating the search on the example trees.\<close>

lemma strings_Count_backslash: "strings_Count s [CHR 0x5C] = count_list s (CHR 0x5C)"
  using strings_Count_sep [of s] by (simp add: sep_def Separator_def)

lemmas example_defs =
  plain_Join_def FromSlash_def slash_Join_def unity_2019_def unity_2019_exe_def unity_hub_def
  six_deep_def
  sep_def Separator_def depthCutoff_def strings_Count_backslash

lemma deepFind_unity_2019:
  "deepFind plain_Join ''C:/Program Files/Unity2019.4'' unity_2019 name = Return unity_2019_exe"
  by (simp add: deepFind_def Walk_def deepFind_fn_def example_defs)

lemma deepFind_unity_hub:
  "deepFind plain_Join ''C:/Program Files/Unity Hub'' unity_hub name = Fatal (Error None)"
  by (simp add: deepFind_def Walk_def deepFind_fn_def example_defs)


text \<open>
  The same facts for a tree in which only the entries the walk can meet are readable, and
  the outcome when nothing is known about failures.
\<close>

lemma io_ok_readable: "io_ok nd \<Longrightarrow> readable J p nd"
  by (induction nd arbitrary: p) auto

lemma readable_no_failure:
  "readable J p e \<Longrightarrow> (\<exists>n. e = File n) \<or> (\<exists>n es. e = Dir n es)"
  by (cases e) auto














section \<open>Lemmas: the scan of the installation root\<close>

lemma loadVersions_range_keys:
  "loadVersions_range lib r config files (versions, lg) = Return (versions', lg') \<Longrightarrow>
   versions' k = Some exe \<Longrightarrow>
   versions k = Some exe \<or>
   (\<exists>f\<in>set files. IsDir f \<and> 2 \<le> length (r (Name f)) \<and> k = r (Name f) ! 1 \<and>
      deepFind (filepath_Join lib) (path_Join lib (ProgramDir config) (Name f)) f ''Unity.exe''
        = Return exe)"
proof (induction files arbitrary: versions lg)
  case Nil
  then show ?case by simp
next
  case (Cons f files)
  show ?case
  proof (cases "IsDir f \<and> 2 \<le> length (r (Name f))")
    case False
    with Cons.prems
    have "loadVersions_range lib r config files (versions, lg) = Return (versions', lg')"
      by (auto simp: Let_def split: if_splits)
    from Cons.IH [OF this Cons.prems(2)] show ?thesis by auto
  next
    case True
    let ?d = "deepFind (filepath_Join lib) (path_Join lib (ProgramDir config) (Name f)) f
                ''Unity.exe''"
    from True Cons.prems(1) obtain exe' where d: "?d = Return exe'"
      by (cases ?d) (auto simp: Let_def)
    show ?thesis
    proof (cases "exe' = []")
      case True
      with \<open>IsDir f \<and> 2 \<le> length (r (Name f))\<close> d Cons.prems(1)
      have "loadVersions_range lib r config files
              (versions, lg @ [Name f @ '' has no Unity.exe!'']) = Return (versions', lg')"
        by (simp add: Let_def)
      from Cons.IH [OF this Cons.prems(2)] show ?thesis by auto
    next
      case False
      with \<open>IsDir f \<and> 2 \<le> length (r (Name f))\<close> d Cons.prems(1)
      have "loadVersions_range lib r config files
              (versions(r (Name f) ! 1 \<mapsto> exe'), lg) = Return (versions', lg')"
        by (simp add: Let_def)
      from Cons.IH [OF this Cons.prems(2)] \<open>IsDir f \<and> 2 \<le> length (r (Name f))\<close> d
      show ?thesis by (auto split: if_splits)
    qed
  qed
qed

lemma loadVersions_range_filter:
  "loadVersions_range lib r config (filter (\<lambda>f. IsDir f \<and> 2 \<le> length (r (Name f))) files) st
     = loadVersions_range lib r config files st"
proof (induction files arbitrary: st)
  case Nil
  show ?case by simp
next
  case (Cons f files)
  obtain versions lg where st: "st = (versions, lg)" by (cases st)
  show ?case
    unfolding st using Cons.IH
    by (auto simp: Let_def split: outcome.splits)
qed

text \<open>
  One matched directory without an executable in reach ends the whole scan: the loop
  passes on the \<^verbatim>\<open>log.Fatal\<close> of the search.
\<close>

lemma loadVersions_range_aborts:
  assumes "f \<in> set files" "IsDir f" "2 \<le> length (r (Name f))"
    and "\<not> target_within (filepath_Join lib) (path_Join lib (ProgramDir config) (Name f)) f"
  shows "\<exists>l. loadVersions_range lib r config files st = Fatal l"
  using assms(1)
proof (induction files arbitrary: st)
  case Nil
  then show ?case by simp
next
  case (Cons g files)
  obtain versions lg where st: "st = (versions, lg)" by (cases st)
  show ?case
  proof (cases "g = f")
    case True
    have "\<exists>l. deepFind (filepath_Join lib) (path_Join lib (ProgramDir config) (Name f)) f
            ''Unity.exe'' = Fatal l"
      using assms(4) by (rule deepFind_no_target)
    with True assms(2,3) show ?thesis
      by (auto simp: st Let_def)
  next
    case False
    with Cons.prems have "f \<in> set files" by simp
    then have tl: "\<exists>l. loadVersions_range lib r config files st' = Fatal l" for st'
      by (rule Cons.IH)
    let ?d = "deepFind (filepath_Join lib) (path_Join lib (ProgramDir config) (Name g)) g
                ''Unity.exe''"
    have np: "?d \<noteq> Panic" by (rule deepFind_no_Panic)
    show ?thesis
    proof (cases "IsDir g \<and> 2 \<le> length (r (Name g))")
      case False
      with tl [of "(versions, lg)"] show ?thesis
        by (auto simp: st Let_def)
    next
      case True
      with np tl [of "(versions, lg @ [Name g @ '' has no Unity.exe!''])"]
        tl [of "(versions(r (Name g) ! 1 \<mapsto> x), lg)" for x]
      show ?thesis
        by (cases ?d) (auto simp: st Let_def)
    qed
  qed
qed

section \<open>Lemmas: the ordered version keys\<close>

lemma getVersionKeys_range_filter:
  "getVersionKeys_range order (keys, newKeys) =
     (keys @ filter (\<lambda>k. \<not> prefix ''20'' k) order, newKeys @ filter (prefix ''20'') order)"
  by (induction order arbitrary: keys newKeys) auto

lemma getVersionKeys_eq:
  "getVersionKeys order =
     sort (filter (\<lambda>k. \<not> prefix ''20'' k) order) @ sort (filter (prefix ''20'') order)"
  by (simp add: getVersionKeys_def getVersionKeys_range_filter)

lemma sort_filter_unique:
  fixes xs ys :: "string list"
  assumes "distinct xs" "distinct ys" "set xs = set ys"
  shows "sort (filter P xs) = sort (filter P ys)"
proof (rule sorted_distinct_set_unique)
  show "sorted (sort (filter P xs))" "sorted (sort (filter P ys))" by simp_all
  show "distinct (sort (filter P xs))" "distinct (sort (filter P ys))"
    using assms by simp_all
  show "set (sort (filter P xs)) = set (sort (filter P ys))"
    using assms by simp
qed

section \<open>Lemmas: the version pattern\<close>

lemma takeWhile_nonempty: "takeWhile P xs \<noteq> [] \<longleftrightarrow> (\<exists>c rest. xs = c # rest \<and> P c)"
  by (cases xs) auto

lemma starts_field_iff: "starts_field d \<longleftrightarrow> (\<exists>c rest. d = marker @ c # rest \<and> c \<noteq> LF)"
  by (auto simp: starts_field_def takeWhile_nonempty prefix_def)

lemma FindSubmatch_step:
  "d \<noteq> [] \<Longrightarrow> FindSubmatch_versionPattern d =
     (if starts_field d
      then [marker @ takeWhile (\<lambda>b. b \<noteq> LF) (drop (length marker) d),
            takeWhile (\<lambda>b. b \<noteq> LF) (drop (length marker) d)]
      else FindSubmatch_versionPattern (tl d))"
  by (cases d) (simp_all add: starts_field_def Let_def)

lemma marker_nonempty: "marker \<noteq> []"
  by (simp add: marker_def)

lemma has_field_Nil: "\<not> has_field []"
  by (simp add: has_field_def marker_nonempty)

lemma has_field_Cons: "has_field (c # cs) \<longleftrightarrow> starts_field (c # cs) \<or> has_field cs"
proof
  assume "has_field (c # cs)"
  then obtain pre x rest where e: "c # cs = pre @ marker @ x # rest" and x: "x \<noteq> LF"
    by (auto simp: has_field_def)
  show "starts_field (c # cs) \<or> has_field cs"
  proof (cases pre)
    case Nil
    with e x show ?thesis by (auto simp: starts_field_iff)
  next
    case (Cons a pre')
    with e x show ?thesis by (auto simp: has_field_def)
  qed
next
  assume "starts_field (c # cs) \<or> has_field cs"
  then show "has_field (c # cs)"
  proof
    assume "starts_field (c # cs)"
    then obtain x rest where "c # cs = [] @ marker @ x # rest" "x \<noteq> LF"
      by (auto simp: starts_field_iff)
    then show ?thesis unfolding has_field_def by blast
  next
    assume "has_field cs"
    then obtain pre x rest where "cs = pre @ marker @ x # rest" "x \<noteq> LF"
      by (auto simp: has_field_def)
    then have "c # cs = (c # pre) @ marker @ x # rest" "x \<noteq> LF" by simp_all
    then show ?thesis unfolding has_field_def by blast
  qed
qed

text \<open>The matcher returns nil exactly when the data hold no line the pattern matches.\<close>

lemma FindSubmatch_none: "FindSubmatch_versionPattern data = [] \<longleftrightarrow> \<not> has_field data"
proof (induction data)
  case Nil
  show ?case by (simp add: has_field_Nil)
next
  case (Cons c cs)
  then show ?case
    by (simp add: FindSubmatch_step has_field_Cons del: FindSubmatch_versionPattern.simps)
qed

lemma starts_field_shorter:
  assumes "starts_field (x @ y)" "length marker < length x"
  shows "starts_field x"
proof -
  from assms(1) obtain c rest where e: "x @ y = marker @ c # rest" and c: "c \<noteq> LF"
    by (auto simp: starts_field_iff)
  then have "take (Suc (length marker)) (x @ y) = take (Suc (length marker)) (marker @ c # rest)"
    by simp
  with assms(2) have "take (Suc (length marker)) x = marker @ [c]"
    by simp
  then have "x = (marker @ [c]) @ drop (Suc (length marker)) x"
    by (metis append_take_drop_id)
  then obtain r where "x = marker @ c # r" by auto
  with c show ?thesis by (auto simp: starts_field_iff)
qed

text \<open>
  The leftmost match: when the pattern matches nowhere before the marker, the capture is
  the rest of the marker's line.
\<close>

lemma FindSubmatch_found:
  assumes "\<not> has_field (pre @ marker)" "v \<noteq> []" "LF \<notin> set v" "rest = [] \<or> hd rest = LF"
  shows "FindSubmatch_versionPattern (pre @ marker @ v @ rest) = [marker @ v, v]"
  using assms(1)
proof (induction pre)
  case Nil
  have "takeWhile (\<lambda>b. b \<noteq> LF) (v @ rest) = v @ takeWhile (\<lambda>b. b \<noteq> LF) rest"
    using assms(3) by (intro takeWhile_append2) auto
  moreover have "takeWhile (\<lambda>b. b \<noteq> LF) rest = []"
    using assms(4) by (cases rest) auto
  ultimately have tw: "takeWhile (\<lambda>b. b \<noteq> LF) (v @ rest) = v"
    by simp
  have "starts_field (marker @ v @ rest)"
    using assms(2) tw by (simp add: starts_field_def)
  then show ?case
    using tw by (simp add: FindSubmatch_step marker_nonempty)
next
  case (Cons a pre)
  from Cons.prems have n: "\<not> starts_field (a # pre @ marker)" and h: "\<not> has_field (pre @ marker)"
    by (simp_all add: has_field_Cons)
  have "\<not> starts_field ((a # pre @ marker) @ v @ rest)"
    using n starts_field_shorter [of "a # pre @ marker" "v @ rest"] by auto
  then have "FindSubmatch_versionPattern ((a # pre) @ marker @ v @ rest) =
      FindSubmatch_versionPattern (pre @ marker @ v @ rest)"
    using FindSubmatch_step [of "a # pre @ marker @ v @ rest"] by simp
  with Cons.IH [OF h] show ?case by simp
qed

text \<open>A match has exactly one capture, which is not empty and holds no line feed.\<close>

lemma FindSubmatch_shape:
  "FindSubmatch_versionPattern data = [] \<or>
   (\<exists>v. FindSubmatch_versionPattern data = [marker @ v, v] \<and> v \<noteq> [] \<and> LF \<notin> set v)"
proof (induction data)
  case Nil
  show ?case by simp
next
  case (Cons c cs)
  have "LF \<notin> set (takeWhile (\<lambda>b. b \<noteq> LF) xs)" for xs
    by (auto dest: set_takeWhileD)
  with Cons show ?case
    by (auto simp: FindSubmatch_step starts_field_def simp del: FindSubmatch_versionPattern.simps)
qed


section \<open>Lemmas: steps of the scan, and the example machine\<close>

lemma loadVersions_range_skip:
  "\<not> (IsDir f \<and> 2 \<le> length (r (Name f))) \<Longrightarrow>
     loadVersions_range lib r config (f # files) st = loadVersions_range lib r config files st"
  by (cases st) (auto simp: Let_def)

lemma loadVersions_range_add:
  assumes "IsDir f" "2 \<le> length (r (Name f))" "exe \<noteq> []"
    and "deepFind (filepath_Join lib) (path_Join lib (ProgramDir config) (Name f)) f ''Unity.exe''
           = Return exe"
  shows "loadVersions_range lib r config (f # files) (versions, lg)
     = loadVersions_range lib r config files (versions(r (Name f) ! 1 \<mapsto> exe), lg)"
  using assms by (simp add: Let_def)

lemma loadVersions_range_fatal:
  assumes "IsDir f" "2 \<le> length (r (Name f))"
    and "deepFind (filepath_Join lib) (path_Join lib (ProgramDir config) (Name f)) f ''Unity.exe''
           = Fatal l"
  shows "loadVersions_range lib r config (f # files) st = Fatal l"
  using assms by (cases st) (simp add: Let_def)

lemma example_lib_simps:
  "filepath_Join example_lib = plain_Join"
  "path_Join example_lib = slash_Join"
  "regexp_Compile example_lib ''^Unity(.+)$'' = Some FindStringSubmatch_default"
  "toml_Encode example_lib config = Inr ''example document''"
  "toml_Decode example_lib ''example document'' = Inr example_config"
  by (simp_all add: example_lib_def)

lemma defaultConfig_simps:
  "ProgramDir defaultConfig = ''C:/Program Files''"
  "DirPattern defaultConfig = ''^Unity(.+)$''"
  "Versions defaultConfig = Map.empty"
  by (simp_all add: defaultConfig_def)

lemma machine_simps:
  "ReadDir (machine listing v) ''C:/Program Files'' = Inr listing"
  "Files (machine listing v) (plain_Join ''proj'' ''ProjectSettings/ProjectVersion.txt'') = v"
  "Create (machine listing v) path = None"
  "Start (machine listing v) name arg = None"
  by (simp_all add: machine_def)

lemma FindStringSubmatch_default_examples:
  "FindStringSubmatch_default ''Unity Hub'' = [''Unity Hub'', '' Hub'']"
  "FindStringSubmatch_default ''Unity2019.4'' = [''Unity2019.4'', ''2019.4'']"
  "FindStringSubmatch_default ''Git'' = []"
  by (simp_all add: FindStringSubmatch_default_def LF_def Let_def)

lemma example_nodes:
  "Name unity_hub = ''Unity Hub''" "IsDir unity_hub" "io_ok unity_hub"
  "Name unity_2019 = ''Unity2019.4''" "IsDir unity_2019" "io_ok unity_2019"
  by (simp_all add: unity_hub_def unity_2019_def)

lemma slash_Join_examples:
  "slash_Join ''C:/Program Files'' ''Unity Hub'' = ''C:/Program Files/Unity Hub''"
  "slash_Join ''C:/Program Files'' ''Unity2019.4'' = ''C:/Program Files/Unity2019.4''"
  by (simp_all add: slash_Join_def)

lemma unity_2019_exe_nonempty: "unity_2019_exe \<noteq> []"
  by (simp add: unity_2019_exe_def)

text \<open>The scan of the example root that holds the installation of version 2019.4.\<close>

lemma loadVersions_example:
  "loadVersions example_lib
     (machine [Dir ''Git'' [File ''Unity.exe''], File ''Unity5.6'', unity_2019] v) defaultConfig
     = Return ([''2019.4'' \<mapsto> unity_2019_exe], [])"
proof -
  let ?r = FindStringSubmatch_default
  have 1: "loadVersions_range example_lib ?r defaultConfig
      (Dir ''Git'' [File ''Unity.exe''] # rest) st
      = loadVersions_range example_lib ?r defaultConfig rest st" for rest st
    by (rule loadVersions_range_skip) (simp add: FindStringSubmatch_default_examples)
  have 2: "loadVersions_range example_lib ?r defaultConfig (File ''Unity5.6'' # rest) st
      = loadVersions_range example_lib ?r defaultConfig rest st" for rest st
    by (rule loadVersions_range_skip) simp
  have 3: "loadVersions_range example_lib ?r defaultConfig [unity_2019] (Map.empty, [])
      = loadVersions_range example_lib ?r defaultConfig []
          (Map.empty(?r (Name unity_2019) ! 1 \<mapsto> unity_2019_exe), [])"
    by (rule loadVersions_range_add)
       (simp_all add: example_nodes FindStringSubmatch_default_examples example_lib_simps
          defaultConfig_simps slash_Join_examples deepFind_unity_2019 unity_2019_exe_nonempty)
  have "loadVersions_range example_lib ?r defaultConfig
      [Dir ''Git'' [File ''Unity.exe''], File ''Unity5.6'', unity_2019] (Map.empty, [])
      = Return ([''2019.4'' \<mapsto> unity_2019_exe], [])"
    by (simp only: 1 2 3) (simp add: example_nodes FindStringSubmatch_default_examples)
  then show ?thesis
    by (simp add: loadVersions_def example_lib_simps defaultConfig_simps machine_simps)
qed


text \<open>
  Keys are never removed, and every matching directory of the listing has been searched
  with success and, unless the path found is empty, has its capture among the keys.
\<close>

lemma loadVersions_range_forward:
  "loadVersions_range lib r config files (versions, lg) = Return (versions', lg') \<Longrightarrow>
   dom versions \<subseteq> dom versions' \<and>
   (\<forall>f\<in>set files. IsDir f \<and> 2 \<le> length (r (Name f)) \<longrightarrow>
      (\<exists>exe. deepFind (filepath_Join lib) (path_Join lib (ProgramDir config) (Name f)) f
               ''Unity.exe'' = Return exe \<and>
             (exe \<noteq> [] \<longrightarrow> r (Name f) ! 1 \<in> dom versions')))"
proof (induction files arbitrary: versions lg)
  case Nil
  then show ?case by simp
next
  case (Cons f files)
  show ?case
  proof (cases "IsDir f \<and> 2 \<le> length (r (Name f))")
    case False
    then have "loadVersions_range lib r config (f # files) (versions, lg)
        = loadVersions_range lib r config files (versions, lg)"
      by (rule loadVersions_range_skip)
    with Cons.prems
    have "loadVersions_range lib r config files (versions, lg) = Return (versions', lg')"
      by (simp only:)
    from Cons.IH [OF this] False show ?thesis by auto
  next
    case True
    let ?d = "deepFind (filepath_Join lib) (path_Join lib (ProgramDir config) (Name f)) f
                ''Unity.exe''"
    from True Cons.prems(1) obtain exe where d: "?d = Return exe"
      by (cases ?d) (auto simp: Let_def)
    show ?thesis
    proof (cases "exe = []")
      case e: True
      with True d Cons.prems(1)
      have "loadVersions_range lib r config files
              (versions, lg @ [Name f @ '' has no Unity.exe!'']) = Return (versions', lg')"
        by (simp add: Let_def)
      from Cons.IH [OF this] d e show ?thesis by auto
    next
      case e: False
      with True d Cons.prems(1)
      have "loadVersions_range lib r config files
              (versions(r (Name f) ! 1 \<mapsto> exe), lg) = Return (versions', lg')"
        by (simp add: Let_def)
      from Cons.IH [OF this]
      have sub: "dom (versions(r (Name f) ! 1 \<mapsto> exe)) \<subseteq> dom versions'"
        and rest: "\<forall>g\<in>set files. IsDir g \<and> 2 \<le> length (r (Name g)) \<longrightarrow>
          (\<exists>exe. deepFind (filepath_Join lib) (path_Join lib (ProgramDir config) (Name g)) g
                   ''Unity.exe'' = Return exe \<and>
                 (exe \<noteq> [] \<longrightarrow> r (Name g) ! 1 \<in> dom versions'))"
        by blast+
      from sub have "dom versions \<subseteq> dom versions'" and "r (Name f) ! 1 \<in> dom versions'"
        by auto
      with rest d show ?thesis by auto
    qed
  qed
qed

lemma deepFind_unity_56:
  "deepFind plain_Join ''C:/Program Files/Unity5.6'' unity_56 name = Return unity_56_exe"
  by (simp add: deepFind_def Walk_def deepFind_fn_def unity_56_def unity_56_exe_def
      example_defs)

lemma unity_56_simps:
  "Name unity_56 = ''Unity5.6''" "IsDir unity_56" "unity_56_exe \<noteq> []"
  "FindStringSubmatch_default ''Unity5.6'' = [''Unity5.6'', ''5.6'']"
  "slash_Join ''C:/Program Files'' ''Unity5.6'' = ''C:/Program Files/Unity5.6''"
  by (simp_all add: unity_56_def unity_56_exe_def FindStringSubmatch_default_def LF_def Let_def
      slash_Join_def)

text \<open>The scan of the root that holds the two installations.\<close>

lemma loadVersions_two_installations:
  "loadVersions example_lib (machine two_installations v) defaultConfig
     = Return ([''2019.4'' \<mapsto> unity_2019_exe, ''5.6'' \<mapsto> unity_56_exe], [])"
proof -
  let ?r = FindStringSubmatch_default
  have 1: "loadVersions_range example_lib ?r defaultConfig
      (Dir ''Git'' [File ''Unity.exe''] # rest) st
      = loadVersions_range example_lib ?r defaultConfig rest st" for rest st
    by (rule loadVersions_range_skip) (simp add: FindStringSubmatch_default_examples)
  have 2: "loadVersions_range example_lib ?r defaultConfig (File ''Unity2018.1'' # rest) st
      = loadVersions_range example_lib ?r defaultConfig rest st" for rest st
    by (rule loadVersions_range_skip) simp
  have 3: "loadVersions_range example_lib ?r defaultConfig (unity_2019 # rest) (m, [])
      = loadVersions_range example_lib ?r defaultConfig rest
          (m(?r (Name unity_2019) ! 1 \<mapsto> unity_2019_exe), [])" for rest m
    by (rule loadVersions_range_add)
       (simp_all add: example_nodes FindStringSubmatch_default_examples example_lib_simps
          defaultConfig_simps slash_Join_examples deepFind_unity_2019 unity_2019_exe_nonempty)
  have 4: "loadVersions_range example_lib ?r defaultConfig (unity_56 # rest) (m, [])
      = loadVersions_range example_lib ?r defaultConfig rest
          (m(?r (Name unity_56) ! 1 \<mapsto> unity_56_exe), [])" for rest m
    by (rule loadVersions_range_add)
       (simp_all add: unity_56_simps example_lib_simps defaultConfig_simps deepFind_unity_56)
  have "loadVersions_range example_lib ?r defaultConfig two_installations (Map.empty, [])
      = Return ([''2019.4'' \<mapsto> unity_2019_exe, ''5.6'' \<mapsto> unity_56_exe], [])"
    unfolding two_installations_def
    by (simp only: 1 2 3 4)
       (simp add: example_nodes unity_56_simps FindStringSubmatch_default_examples)
  then show ?thesis
    by (simp add: loadVersions_def example_lib_simps defaultConfig_simps machine_simps)
qed


section \<open>Lemmas: reading the project version\<close>

lemma getProjectVersion_Absent:
  "Files w (versionFile lib projectPath) = Absent \<Longrightarrow>
     getProjectVersion lib w projectPath = Fatal (Text ''No ProjectVersion.txt'')"
  by (simp add: getProjectVersion_def versionFile_def isExists_def)

lemma getProjectVersion_Unreadable:
  "Files w (versionFile lib projectPath) = Unreadable err \<Longrightarrow>
     getProjectVersion lib w projectPath = Fatal (Error (Some (OtherError err)))"
  by (simp add: getProjectVersion_def versionFile_def isExists_def ReadFile_def)

lemma getProjectVersion_Contents:
  "Files w (versionFile lib projectPath) = Contents data \<Longrightarrow>
     getProjectVersion lib w projectPath =
       (if length (FindSubmatch_versionPattern data) < 2 then Fatal (Text no_field)
        else Return (FindSubmatch_versionPattern data ! 1))"
  by (simp add: getProjectVersion_def versionFile_def isExists_def ReadFile_def Let_def)

lemma getProjectVersion_no_field:
  assumes "Files w (versionFile lib projectPath) = Contents data" "\<not> has_field data"
  shows "getProjectVersion lib w projectPath = Fatal (Text no_field)"
proof -
  from assms(2) have "FindSubmatch_versionPattern data = []"
    by (simp add: FindSubmatch_none)
  with assms(1) show ?thesis
    by (simp add: getProjectVersion_Contents)
qed

lemma getProjectVersion_found:
  assumes "Files w (versionFile lib projectPath) = Contents (pre @ marker @ v @ rest)"
    and "\<not> has_field (pre @ marker)" "v \<noteq> []" "LF \<notin> set v" "rest = [] \<or> hd rest = LF"
  shows "getProjectVersion lib w projectPath = Return v"
proof -
  have "FindSubmatch_versionPattern (pre @ marker @ v @ rest) = [marker @ v, v]"
    using assms(2-5) by (rule FindSubmatch_found)
  with assms(1) show ?thesis
    by (simp add: getProjectVersion_Contents)
qed

lemma getProjectVersion_has_field:
  assumes "Files w (versionFile lib projectPath) = Contents data" "has_field data"
  shows "\<exists>v. getProjectVersion lib w projectPath = Return v \<and> v \<noteq> [] \<and> LF \<notin> set v \<and>
           FindSubmatch_versionPattern data = [marker @ v, v]"
proof -
  from assms(2) have "FindSubmatch_versionPattern data \<noteq> []"
    by (simp add: FindSubmatch_none)
  with FindSubmatch_shape [of data] obtain v where
    v: "FindSubmatch_versionPattern data = [marker @ v, v]" "v \<noteq> []" "LF \<notin> set v"
    by auto
  with assms(1) have "getProjectVersion lib w projectPath = Return v"
    by (simp add: getProjectVersion_Contents)
  with v show ?thesis by blast
qed

lemma getProjectVersion_nonempty: "getProjectVersion lib w projectPath \<noteq> Return []"
proof (cases "Files w (versionFile lib projectPath)")
  case Absent
  then show ?thesis by (simp add: getProjectVersion_Absent)
next
  case (Unreadable err)
  then show ?thesis by (simp add: getProjectVersion_Unreadable)
next
  case (Contents data)
  with FindSubmatch_shape [of data] show ?thesis
    by (auto simp: getProjectVersion_Contents)
qed

lemma marker_alone: "\<not> has_field ([] @ marker)"
proof -
  have "FindSubmatch_versionPattern marker = []"
    by (simp add: marker_def LF_def Let_def)
  then show ?thesis by (simp add: FindSubmatch_none)
qed

lemma versionFile_example:
  "versionFile example_lib ''proj'' = plain_Join ''proj'' ''ProjectSettings/ProjectVersion.txt''"
  by (simp add: versionFile_def example_lib_simps)


section \<open>Lemmas: persisting and loading\<close>

lemma Config_output_Return:
  "Config_output lib w config configDir = Return w' \<Longrightarrow>
     \<exists>doc. toml_Encode lib config = Inr doc \<and>
       w' = w\<lparr>Files := (Files w)(configPath lib configDir := Contents doc)\<rparr>"
  by (auto simp: Config_output_def split: option.splits sum.splits)

lemma initialize_Return:
  assumes "initialize lib w configDir = Return (config, w')"
  shows "\<exists>versions lg doc.
      loadVersions lib w defaultConfig = Return (versions, lg) \<and>
      config = defaultConfig\<lparr>Versions := versions\<rparr> \<and>
      toml_Encode lib config = Inr doc \<and>
      w' = w\<lparr>Files := (Files w)(configPath lib configDir := Contents doc)\<rparr>"
proof -
  from assms obtain versions lg where
    l: "loadVersions lib w defaultConfig = Return (versions, lg)"
    by (cases "loadVersions lib w defaultConfig") (auto simp: initialize_def)
  with assms have o: "Config_output lib w (defaultConfig\<lparr>Versions := versions\<rparr>) configDir = Return w'"
    and c: "config = defaultConfig\<lparr>Versions := versions\<rparr>"
    by (auto simp: initialize_def Let_def split: outcome.splits)
  from Config_output_Return [OF o] c l show ?thesis by blast
qed

lemma toml_DecodeFile_Contents:
  "Files w path = Contents doc \<Longrightarrow> toml_DecodeFile lib w path = toml_Decode lib doc"
  by (simp add: toml_DecodeFile_def ReadFile_def)

lemma toml_DecodeFile_Absent:
  "Files w path = Absent \<Longrightarrow>
     toml_DecodeFile lib w path = Inl ''The system cannot find the file specified.''"
  by (simp add: toml_DecodeFile_def ReadFile_def)

lemma initialize_example:
  "initialize example_lib
     (machine [Dir ''Git'' [File ''Unity.exe''], File ''Unity5.6'', unity_2019] v) example_dir
   = Return (example_config,
       (machine [Dir ''Git'' [File ''Unity.exe''], File ''Unity5.6'', unity_2019] v)
         \<lparr>Files := (Files (machine [Dir ''Git'' [File ''Unity.exe''], File ''Unity5.6'', unity_2019] v))
            (configPath example_lib example_dir := Contents ''example document'')\<rparr>)"
  by (simp add: initialize_def loadVersions_example Config_output_def machine_simps
      example_lib_simps example_config_def)


section \<open>Lemmas: the persisted document\<close>

lemma read_body_plain:
  "c \<noteq> DQ \<Longrightarrow> c \<noteq> LF \<Longrightarrow> c \<noteq> Backslash \<Longrightarrow>
     read_body (c # t) = map_option (apfst ((#) c)) (read_body t)"
  by simp

lemma read_body_escaped:
  "read_body (Backslash # DQ # t) = map_option (apfst ((#) DQ)) (read_body t)"
  "read_body (Backslash # Backslash # t) = map_option (apfst ((#) Backslash)) (read_body t)"
  "read_body (Backslash # CHR ''n'' # t) = map_option (apfst ((#) LF)) (read_body t)"
  by (simp_all add: DQ_def Backslash_def LF_def)

lemma read_body_escape: "read_body (escape s @ DQ # rest) = Some (s, rest)"
proof (induction s)
  case Nil
  show ?case by simp
next
  case (Cons c cs)
  consider "c = Backslash" | "c = DQ" | "c = LF" | "c \<noteq> Backslash" "c \<noteq> DQ" "c \<noteq> LF"
    by blast
  then show ?case
  proof cases
    case 1
    then have "escape (c # cs) = Backslash # Backslash # escape cs" by simp
    with Cons 1 show ?thesis
      by (simp only: append_Cons read_body_escaped) simp
  next
    case 2
    then have "escape (c # cs) = Backslash # DQ # escape cs" by simp
    with Cons 2 show ?thesis
      by (simp only: append_Cons read_body_escaped) simp
  next
    case 3
    then have "escape (c # cs) = Backslash # CHR ''n'' # escape cs"
      by (simp add: LF_def Backslash_def DQ_def)
    with Cons 3 show ?thesis
      by (simp only: append_Cons read_body_escaped) simp
  next
    case 4
    then have "escape (c # cs) = c # escape cs" by simp
    with Cons 4 show ?thesis
      by (simp only: append_Cons read_body_plain) simp
  qed
qed

lemma read_quoted_quoted: "read_quoted (quoted s @ rest) = Some (s, rest)"
  by (simp add: read_quoted_def quoted_def read_body_escape)

lemma expect_literal: "expect lit (lit @ rest) = Some rest"
  by (simp add: expect_def)

lemma read_setting_line: "read_setting name (setting_line name v) = Some v"
proof -
  have "expect (name @ '' = '') (setting_line name v) = Some (quoted v)"
    using expect_literal [of "name @ '' = ''" "quoted v"] by (simp add: setting_line_def)
  moreover have "read_quoted (quoted v) = Some (v, [])"
    using read_quoted_quoted [of v "[]"] by simp
  ultimately show ?thesis by (simp add: read_setting_def)
qed

lemma read_entry_line: "read_entry (entry_line k v) = Some (k, v)"
proof -
  have "read_quoted (entry_line k v) = Some (k, '' = '' @ quoted v)"
    unfolding entry_line_def by (rule read_quoted_quoted)
  moreover have "expect '' = '' ('' = '' @ quoted v) = Some (quoted v)"
    by (rule expect_literal)
  moreover have "read_quoted (quoted v) = Some (v, [])"
    using read_quoted_quoted [of v "[]"] by simp
  ultimately show ?thesis by (simp add: read_entry_def)
qed

lemma read_entries_lines:
  "set ks \<subseteq> dom M \<Longrightarrow>
     read_entries (map (\<lambda>k. entry_line k (the (M k))) ks) m
       = Some (\<lambda>x. if x \<in> set ks then M x else m x)"
proof (induction ks arbitrary: m)
  case Nil
  show ?case by simp
next
  case (Cons k ks)
  then obtain v where v: "M k = Some v" by auto
  have "(\<lambda>x. if x \<in> set ks then M x else (m(k \<mapsto> v)) x)
      = (\<lambda>x. if x \<in> set (k # ks) then M x else m x)"
    using v by auto
  with Cons v show ?case
    by (simp add: read_entry_line)
qed

lemma escape_no_LF: "LF \<notin> set (escape s)"
  by (induction s) (auto simp: LF_def Backslash_def DQ_def)

lemma quoted_no_LF: "LF \<notin> set (quoted s)"
  by (simp add: quoted_def escape_no_LF) (simp add: LF_def DQ_def)

lemma split_lines_line:
  "LF \<notin> set l \<Longrightarrow> split_lines acc (l @ LF # rest) = (acc @ l) # split_lines [] rest"
  by (induction l arbitrary: acc) auto

lemma split_lines_unlines:
  "\<forall>l\<in>set ls. LF \<notin> set l \<Longrightarrow> split_lines [] (unlines ls) = ls"
proof (induction ls)
  case Nil
  show ?case by (simp add: unlines_def)
next
  case (Cons l ls)
  then have "split_lines [] (l @ LF # unlines ls) = ([] @ l) # split_lines [] (unlines ls)"
    by (intro split_lines_line) simp
  with Cons show ?case by (simp add: unlines_def)
qed

text \<open>Decoding the encoding of a configuration with finitely many versions gives it back.\<close>

lemma Decode_Encode:
  assumes "finite (dom (Versions config))"
  shows "Decode (Encode config) = Inr config"
proof -
  let ?ks = "sorted_list_of_set (dom (Versions config))"
  let ?es = "map (\<lambda>k. entry_line k (the (Versions config k))) ?ks"
  let ?ls = "[setting_line ''ProgramDir'' (ProgramDir config),
      setting_line ''DirPattern'' (DirPattern config), ''[Versions]''] @ ?es"
  have ks: "set ?ks = dom (Versions config)"
    using assms by simp
  have "\<forall>l\<in>set ?ls. LF \<notin> set l"
    by (auto simp: setting_line_def entry_line_def quoted_no_LF [unfolded LF_def] LF_def)
  then have "split_lines [] (Encode config) = ?ls"
    unfolding Encode_def by (rule split_lines_unlines)
  moreover have "read_entries ?es Map.empty
      = Some (\<lambda>x. if x \<in> set ?ks then Versions config x else None)"
    using ks by (intro read_entries_lines) simp
  moreover have "(\<lambda>x. if x \<in> set ?ks then Versions config x else None) = Versions config"
    using ks by (auto simp: fun_eq_iff)
  ultimately show ?thesis
    by (simp add: Decode_def read_setting_line)
qed

lemma loadVersions_range_finite:
  "loadVersions_range lib r config files (versions, lg) = Return (versions', lg') \<Longrightarrow>
     finite (dom versions) \<Longrightarrow> finite (dom versions')"
proof (induction files arbitrary: versions lg)
  case Nil
  then show ?case by simp
next
  case (Cons f files)
  show ?case
  proof (cases "IsDir f \<and> 2 \<le> length (r (Name f))")
    case False
    then have "loadVersions_range lib r config (f # files) (versions, lg)
        = loadVersions_range lib r config files (versions, lg)"
      by (rule loadVersions_range_skip)
    with Cons.prems(1)
    have "loadVersions_range lib r config files (versions, lg) = Return (versions', lg')"
      by (simp only:)
    from Cons.IH [OF this Cons.prems(2)] show ?thesis .
  next
    case True
    let ?d = "deepFind (filepath_Join lib) (path_Join lib (ProgramDir config) (Name f)) f
                ''Unity.exe''"
    from True Cons.prems(1) obtain exe where d: "?d = Return exe"
      by (cases ?d) (auto simp: Let_def)
    show ?thesis
    proof (cases "exe = []")
      case e: True
      with True d Cons.prems(1)
      have "loadVersions_range lib r config files
              (versions, lg @ [Name f @ '' has no Unity.exe!'']) = Return (versions', lg')"
        by (simp add: Let_def)
      from Cons.IH [OF this Cons.prems(2)] show ?thesis .
    next
      case e: False
      with True d Cons.prems(1)
      have "loadVersions_range lib r config files
              (versions(r (Name f) ! 1 \<mapsto> exe), lg) = Return (versions', lg')"
        by (simp add: Let_def)
      moreover from Cons.prems(2) have "finite (dom (versions(r (Name f) ! 1 \<mapsto> exe)))"
        by simp
      ultimately show ?thesis by (rule Cons.IH)
    qed
  qed
qed

lemma loadVersions_finite:
  "loadVersions lib w config = Return (versions, lg) \<Longrightarrow> finite (dom versions)"
  by (auto simp: loadVersions_def split: option.splits sum.splits
      dest: loadVersions_range_finite)

lemma spec_toml_simps:
  "filepath_Join (spec_toml lib) = filepath_Join lib"
  "path_Join (spec_toml lib) = path_Join lib"
  "regexp_Compile (spec_toml lib) = regexp_Compile lib"
  "toml_Encode (spec_toml lib) config = Inr (Encode config)"
  "toml_Decode (spec_toml lib) = Decode"
  by (simp_all add: spec_toml_def)

lemma loadVersions_range_spec_toml:
  "loadVersions_range (spec_toml lib) r config files st = loadVersions_range lib r config files st"
proof (induction files arbitrary: st)
  case Nil
  show ?case by (cases st) simp
next
  case (Cons f files)
  obtain versions lg where st: "st = (versions, lg)" by (cases st)
  show ?case
    unfolding st using Cons.IH
    by (auto simp: Let_def spec_toml_simps split: outcome.splits)
qed

lemma loadVersions_spec_toml:
  "loadVersions (spec_toml lib) w config = loadVersions lib w config"
  by (simp add: loadVersions_def loadVersions_range_spec_toml spec_toml_simps
      split: option.splits sum.splits)

lemma configPath_spec_toml: "configPath (spec_toml lib) configDir = configPath lib configDir"
  by (simp add: configPath_def spec_toml_simps)

lemma initialize_finite:
  "initialize lib w configDir = Return (config, w') \<Longrightarrow> finite (dom (Versions config))"
  using initialize_Return [of lib w configDir config w']
  by (auto dest: loadVersions_finite)

lemma initialize_spec_toml_example:
  "initialize (spec_toml example_lib)
     (machine [Dir ''Git'' [File ''Unity.exe''], File ''Unity5.6'', unity_2019] v) example_dir
   = Return (example_config,
       (machine [Dir ''Git'' [File ''Unity.exe''], File ''Unity5.6'', unity_2019] v)
         \<lparr>Files := (Files (machine [Dir ''Git'' [File ''Unity.exe''], File ''Unity5.6'', unity_2019] v))
            (configPath example_lib example_dir := Contents (Encode example_config))\<rparr>)"
  by (simp add: initialize_def loadVersions_spec_toml loadVersions_example Config_output_def
      machine_simps spec_toml_simps configPath_spec_toml example_config_def Let_def)

lemma loadVersions_empty_root:
  "loadVersions example_lib (machine [] v) defaultConfig = Return (Map.empty, [])"
  by (simp add: loadVersions_def example_lib_simps defaultConfig_simps machine_simps)

lemma initialize_spec_toml_empty_root:
  "initialize (spec_toml example_lib) (machine [] v) example_dir
   = Return (defaultConfig,
       (machine [] v)
         \<lparr>Files := (Files (machine [] v))
            (configPath example_lib example_dir := Contents (Encode defaultConfig))\<rparr>)"
proof -
  have "defaultConfig\<lparr>Versions := Map.empty\<rparr> = defaultConfig"
    by (simp add: defaultConfig_def)
  then show ?thesis
    by (simp add: initialize_def loadVersions_spec_toml loadVersions_empty_root
        Config_output_def machine_simps spec_toml_simps configPath_spec_toml Let_def)
qed

lemma Encode_defaultConfig:
  "Encode defaultConfig =
     ''ProgramDir = '' @ DQ # ''C:/Program Files'' @ DQ # LF #
     ''DirPattern = '' @ DQ # ''^Unity(.+)$'' @ DQ # LF #
     ''[Versions]'' @ [LF]"
  by (simp add: Encode_def defaultConfig_def unlines_def setting_line_def quoted_def
      Backslash_def DQ_def LF_def)

lemma Encode_example_config:
  "Encode example_config =
     ''ProgramDir = '' @ DQ # ''C:/Program Files'' @ DQ # LF #
     ''DirPattern = '' @ DQ # ''^Unity(.+)$'' @ DQ # LF #
     ''[Versions]'' @ LF #
     DQ # ''2019.4'' @ DQ # '' = '' @ DQ #
       ''C:'' @ Backslash # Backslash # ''Program Files'' @ Backslash # Backslash #
       ''Unity2019.4'' @ Backslash # Backslash # ''Editor'' @ Backslash # Backslash #
       ''Unity.exe'' @ DQ # [LF]"
  by (simp add: Encode_def example_config_def defaultConfig_def unlines_def setting_line_def
      entry_line_def quoted_def unity_2019_exe_def sep_def Separator_def
      Backslash_def DQ_def LF_def)


section \<open>The claims\<close>

text \<open>
  C1 (the code departs from the claim): a matched directory with no \<^verbatim>\<open>Unity.exe\<close> in reach
  is not dropped with a notice. The search ends the process with \<^verbatim>\<open>log.Fatal(nil)\<close>, so
  whenever the listing holds such a directory the scan does not return: it ends in
  \<^verbatim>\<open>log.Fatal\<close>.
\<close>

theorem loadVersions_aborts_without_exe:
  assumes "regexp_Compile lib (DirPattern config) = Some r"
    and "ReadDir w (ProgramDir config) = Inr files"
    and "f \<in> set files" "IsDir f" "2 \<le> length (r (Name f))"
    and "\<not> target_within (filepath_Join lib) (path_Join lib (ProgramDir config) (Name f)) f"
  shows "\<exists>l. loadVersions lib w config = Fatal l"
proof -
  have "\<exists>l. loadVersions_range lib r config files (Map.empty, []) = Fatal l"
    using assms(3-6) by (rule loadVersions_range_aborts)
  with assms(1,2) show ?thesis
    by (simp add: loadVersions_def)
qed

text \<open>
  The installation root holds \<^verbatim>\<open>Unity Hub\<close>, which matches the default pattern and has no
  \<^verbatim>\<open>Unity.exe\<close>, next to a complete installation of version 2019.4: the scan ends in
  \<^verbatim>\<open>log.Fatal(nil)\<close>.
\<close>

theorem loadVersions_aborts_without_exe_witness:
  "regexp_Compile example_lib (DirPattern defaultConfig) = Some FindStringSubmatch_default \<and>
   ReadDir (machine [unity_hub, unity_2019] Absent) (ProgramDir defaultConfig)
     = Inr [unity_hub, unity_2019] \<and>
   IsDir unity_hub \<and>
   FindStringSubmatch_default (Name unity_hub) = [''Unity Hub'', '' Hub''] \<and>
   (\<exists>l. loadVersions example_lib (machine [unity_hub, unity_2019] Absent) defaultConfig
      = Fatal l) \<and>
   loadVersions example_lib (machine [unity_hub, unity_2019] Absent) defaultConfig
     = Fatal (Error None)"
proof -
  let ?w = "machine [unity_hub, unity_2019] Absent"
  have c: "regexp_Compile example_lib (DirPattern defaultConfig) = Some FindStringSubmatch_default"
    by (simp add: example_lib_simps defaultConfig_simps)
  have l: "ReadDir ?w (ProgramDir defaultConfig) = Inr [unity_hub, unity_2019]"
    by (simp add: machine_simps defaultConfig_simps)
  have m: "FindStringSubmatch_default (Name unity_hub) = [''Unity Hub'', '' Hub'']"
    by (simp add: example_nodes FindStringSubmatch_default_examples)
  then have m2: "2 \<le> length (FindStringSubmatch_default (Name unity_hub))"
    by simp
  have t: "\<not> target_within (filepath_Join example_lib)
      (path_Join example_lib (ProgramDir defaultConfig) (Name unity_hub)) unity_hub"
    by (simp add: example_lib_simps defaultConfig_simps example_defs)
  have "deepFind (filepath_Join example_lib)
      (path_Join example_lib (ProgramDir defaultConfig) (Name unity_hub)) unity_hub ''Unity.exe''
      = Fatal (Error None)"
    by (simp add: example_lib_simps defaultConfig_simps example_nodes slash_Join_examples
        deepFind_unity_hub)
  then have "loadVersions_range example_lib FindStringSubmatch_default defaultConfig
      [unity_hub, unity_2019] (Map.empty, []) = Fatal (Error None)"
    using example_nodes(2) m2 by (rule loadVersions_range_fatal [rotated 2])
  with c l have e: "loadVersions example_lib ?w defaultConfig = Fatal (Error None)"
    by (simp add: loadVersions_def)
  have "unity_hub \<in> set [unity_hub, unity_2019]"
    by simp
  from loadVersions_aborts_without_exe [OF c l this example_nodes(2) m2 t]
  have "\<exists>l. loadVersions example_lib ?w defaultConfig = Fatal l" .
  with c l m e example_nodes(2) show ?thesis by blast
qed




text \<open>
  C3: whatever order the map's keys are iterated in, \<^verbatim>\<open>getVersionKeys\<close> returns every key
  of the mapping exactly once; the result splits into the keys that do not begin with
  \<^verbatim>\<open>20\<close>, in ascending order, followed by the keys that do, in ascending order; and it
  is the same for every iteration order.
\<close>

theorem getVersionKeys_ordered:
  assumes "iteration_of config order"
  shows "distinct (getVersionKeys order) \<and>
         set (getVersionKeys order) = dom (Versions config) \<and>
         (\<exists>old new. getVersionKeys order = old @ new \<and>
            (\<forall>a\<in>set old. \<not> prefix ''20'' a) \<and> (\<forall>b\<in>set new. prefix ''20'' b) \<and>
            sorted old \<and> sorted new) \<and>
         (\<forall>order'. iteration_of config order' \<longrightarrow> getVersionKeys order' = getVersionKeys order)"
proof (intro conjI allI impI)
  from assms have d: "distinct order" and s: "set order = dom (Versions config)"
    by (simp_all add: iteration_of_def)
  from d show "distinct (getVersionKeys order)"
    by (auto simp: getVersionKeys_eq)
  from s show "set (getVersionKeys order) = dom (Versions config)"
    by (auto simp: getVersionKeys_eq)
  show "\<exists>old new. getVersionKeys order = old @ new \<and>
            (\<forall>a\<in>set old. \<not> prefix ''20'' a) \<and> (\<forall>b\<in>set new. prefix ''20'' b) \<and>
            sorted old \<and> sorted new"
    by (rule exI [of _ "sort (filter (\<lambda>k. \<not> prefix ''20'' k) order)"],
        rule exI [of _ "sort (filter (prefix ''20'') order)"])
       (simp add: getVersionKeys_eq)
  fix order' assume "iteration_of config order'"
  with d s have "distinct order'" "set order' = set order"
    by (simp_all add: iteration_of_def)
  with d show "getVersionKeys order' = getVersionKeys order"
    by (simp add: getVersionKeys_eq sort_filter_unique [of order' order])
qed

text \<open>
  The keys \<^verbatim>\<open>2021.1\<close>, \<^verbatim>\<open>5.6\<close>, \<^verbatim>\<open>2019.4\<close>, \<^verbatim>\<open>4.7\<close> come out as \<^verbatim>\<open>4.7\<close>, \<^verbatim>\<open>5.6\<close>,
  \<^verbatim>\<open>2019.4\<close>, \<^verbatim>\<open>2021.1\<close>, from either of two iteration orders.
\<close>

theorem getVersionKeys_ordered_witness:
  "iteration_of four_versions [''2021.1'', ''5.6'', ''2019.4'', ''4.7''] \<and>
   iteration_of four_versions [''4.7'', ''2019.4'', ''5.6'', ''2021.1''] \<and>
   getVersionKeys [''2021.1'', ''5.6'', ''2019.4'', ''4.7'']
     = [''4.7'', ''5.6'', ''2019.4'', ''2021.1''] \<and>
   getVersionKeys [''4.7'', ''2019.4'', ''5.6'', ''2021.1'']
     = [''4.7'', ''5.6'', ''2019.4'', ''2021.1''] \<and>
   set (getVersionKeys [''2021.1'', ''5.6'', ''2019.4'', ''4.7'']) = dom (Versions four_versions)"
proof -
  have i1: "iteration_of four_versions [''2021.1'', ''5.6'', ''2019.4'', ''4.7'']"
    by (auto simp: iteration_of_def four_versions_def)
  have i2: "iteration_of four_versions [''4.7'', ''2019.4'', ''5.6'', ''2021.1'']"
    by (auto simp: iteration_of_def four_versions_def)
  have e: "getVersionKeys [''2021.1'', ''5.6'', ''2019.4'', ''4.7'']
      = [''4.7'', ''5.6'', ''2019.4'', ''2021.1'']"
    by (simp add: getVersionKeys_def)
  from getVersionKeys_ordered [OF i1] i2
  have "getVersionKeys [''4.7'', ''2019.4'', ''5.6'', ''2021.1'']
      = getVersionKeys [''2021.1'', ''5.6'', ''2019.4'', ''4.7'']"
    and "set (getVersionKeys [''2021.1'', ''5.6'', ''2019.4'', ''4.7''])
      = dom (Versions four_versions)"
    by blast+
  with i1 i2 e show ?thesis by simp
qed

text \<open>
  C4: with the version extracted from the project, \<^verbatim>\<open>openProject\<close> looks that exact string
  up in the mapping. When it is a key, the command started is the mapped executable with
  the arguments \<^verbatim>\<open>-projectPath\<close> and the project path (or the start fails and the process
  ends with that error); when it is not, the process ends with
  \<^verbatim>\<open>The version not found\<close>, whatever else the mapping holds.
\<close>

theorem openProject_lookup:
  assumes "getProjectVersion lib w path = Return version"
  shows "(Versions config version = Some exe \<and> Start w exe [''-projectPath'', path] = None \<longrightarrow>
            openProject lib w config path = Return (Command exe [''-projectPath'', path])) \<and>
         (Versions config version = Some exe \<and> Start w exe [''-projectPath'', path] = Some err \<longrightarrow>
            openProject lib w config path = Fatal (Error (Some (OtherError err)))) \<and>
         (Versions config version = None \<longrightarrow>
            openProject lib w config path = Fatal (Text ''The version not found''))"
  using assms by (simp add: openProject_def)

text \<open>
  The mapping holds \<^verbatim>\<open>2021.1.0f1\<close> at \<^verbatim>\<open>/path/to/App\<close>. A project at that version is
  opened with that executable; a project at version \<^verbatim>\<open>9.9.9\<close> is not opened.
\<close>

theorem openProject_lookup_witness:
  "getProjectVersion example_lib (machine [] (Contents ([] @ marker @ ''2021.1.0f1'' @ []))) ''proj''
     = Return ''2021.1.0f1'' \<and>
   Versions spec_config ''2021.1.0f1'' = Some ''/path/to/App'' \<and>
   openProject example_lib (machine [] (Contents ([] @ marker @ ''2021.1.0f1'' @ []))) spec_config
     ''proj'' = Return (Command ''/path/to/App'' [''-projectPath'', ''proj'']) \<and>
   getProjectVersion example_lib (machine [] (Contents ([] @ marker @ ''9.9.9'' @ []))) ''proj''
     = Return ''9.9.9'' \<and>
   Versions spec_config ''9.9.9'' = None \<and>
   openProject example_lib (machine [] (Contents ([] @ marker @ ''9.9.9'' @ []))) spec_config
     ''proj'' = Fatal (Text ''The version not found'')"
proof -
  let ?a = "machine [] (Contents ([] @ marker @ ''2021.1.0f1'' @ []))"
  let ?b = "machine [] (Contents ([] @ marker @ ''9.9.9'' @ []))"
  have fa: "Files ?a (versionFile example_lib ''proj'') = Contents ([] @ marker @ ''2021.1.0f1'' @ [])"
    by (simp only: versionFile_example machine_simps)
  have fb: "Files ?b (versionFile example_lib ''proj'') = Contents ([] @ marker @ ''9.9.9'' @ [])"
    by (simp only: versionFile_example machine_simps)
  have ga: "getProjectVersion example_lib ?a ''proj'' = Return ''2021.1.0f1''"
    using fa marker_alone by (rule getProjectVersion_found) (simp_all add: LF_def)
  have gb: "getProjectVersion example_lib ?b ''proj'' = Return ''9.9.9''"
    using fb marker_alone by (rule getProjectVersion_found) (simp_all add: LF_def)
  have va: "Versions spec_config ''2021.1.0f1'' = Some ''/path/to/App''"
    and vb: "Versions spec_config ''9.9.9'' = None"
    by (simp_all add: spec_config_def)
  have sa: "Start ?a ''/path/to/App'' [''-projectPath'', ''proj''] = None"
    by (simp add: machine_simps)
  from openProject_lookup [OF ga, of spec_config "''/path/to/App''"] va sa
  have 1: "openProject example_lib ?a spec_config ''proj''
      = Return (Command ''/path/to/App'' [''-projectPath'', ''proj''])"
    by blast
  from openProject_lookup [OF gb, of spec_config] vb
  have 2: "openProject example_lib ?b spec_config ''proj'' = Fatal (Text ''The version not found'')"
    by blast
  from ga va 1 gb vb 2 show ?thesis by blast
qed

text \<open>
  C5: version extraction ends in \<^verbatim>\<open>log.Fatal\<close> when the metadata file is absent (or cannot
  be read), and when its contents hold no line that the pattern matches; when they do,
  it returns the capture: the text after the leftmost \<^verbatim>\<open>m_EditorVersion: \<close>, up to the end
  of that line. It never returns the empty string.
\<close>

theorem getProjectVersion_extraction:
  "(Files w (versionFile lib projectPath) = Absent \<longrightarrow>
      getProjectVersion lib w projectPath = Fatal (Text ''No ProjectVersion.txt'')) \<and>
   (Files w (versionFile lib projectPath) = Unreadable err \<longrightarrow>
      getProjectVersion lib w projectPath = Fatal (Error (Some (OtherError err)))) \<and>
   (Files w (versionFile lib projectPath) = Contents data \<and> \<not> has_field data \<longrightarrow>
      getProjectVersion lib w projectPath = Fatal (Text no_field)) \<and>
   (Files w (versionFile lib projectPath) = Contents data \<and> has_field data \<longrightarrow>
      (\<exists>v. getProjectVersion lib w projectPath = Return v \<and> v \<noteq> [] \<and> LF \<notin> set v \<and>
           FindSubmatch_versionPattern data = [marker @ v, v])) \<and>
   (Files w (versionFile lib projectPath) = Contents (pre @ marker @ v @ rest) \<and>
      \<not> has_field (pre @ marker) \<and> v \<noteq> [] \<and> LF \<notin> set v \<and> (rest = [] \<or> hd rest = LF) \<longrightarrow>
      getProjectVersion lib w projectPath = Return v) \<and>
   getProjectVersion lib w projectPath \<noteq> Return []"
proof (intro conjI impI)
  assume "Files w (versionFile lib projectPath) = Absent"
  then show "getProjectVersion lib w projectPath = Fatal (Text ''No ProjectVersion.txt'')"
    by (rule getProjectVersion_Absent)
next
  assume "Files w (versionFile lib projectPath) = Unreadable err"
  then show "getProjectVersion lib w projectPath = Fatal (Error (Some (OtherError err)))"
    by (rule getProjectVersion_Unreadable)
next
  assume "Files w (versionFile lib projectPath) = Contents data \<and> \<not> has_field data"
  then show "getProjectVersion lib w projectPath = Fatal (Text no_field)"
    using getProjectVersion_no_field [of w lib projectPath data] by blast
next
  assume "Files w (versionFile lib projectPath) = Contents data \<and> has_field data"
  then show "\<exists>v. getProjectVersion lib w projectPath = Return v \<and> v \<noteq> [] \<and> LF \<notin> set v \<and>
      FindSubmatch_versionPattern data = [marker @ v, v]"
    using getProjectVersion_has_field [of w lib projectPath data] by blast
next
  assume a: "Files w (versionFile lib projectPath) = Contents (pre @ marker @ v @ rest) \<and>
      \<not> has_field (pre @ marker) \<and> v \<noteq> [] \<and> LF \<notin> set v \<and> (rest = [] \<or> hd rest = LF)"
  show "getProjectVersion lib w projectPath = Return v"
    by (rule getProjectVersion_found [of w lib projectPath pre v rest]) (simp_all add: a)
next
  show "getProjectVersion lib w projectPath \<noteq> Return []"
    by (rule getProjectVersion_nonempty)
qed

text \<open>
  A project without the file, one whose file lacks the field, and one whose file holds
  \<^verbatim>\<open>m_EditorVersion: 2019.4\<close> followed by a second line.
\<close>

theorem getProjectVersion_extraction_witness:
  "Files (machine [] Absent) (versionFile example_lib ''proj'') = Absent \<and>
   getProjectVersion example_lib (machine [] Absent) ''proj''
     = Fatal (Text ''No ProjectVersion.txt'') \<and>
   Files (machine [] (Contents ''m_EditorVersion:'')) (versionFile example_lib ''proj'')
     = Contents ''m_EditorVersion:'' \<and>
   \<not> has_field ''m_EditorVersion:'' \<and>
   getProjectVersion example_lib (machine [] (Contents ''m_EditorVersion:'')) ''proj''
     = Fatal (Text no_field) \<and>
   Files (machine [] (Contents ([] @ marker @ ''2019.4'' @ LF # ''m_EditorVersionWithRevision: x'')))
       (versionFile example_lib ''proj'')
     = Contents ([] @ marker @ ''2019.4'' @ LF # ''m_EditorVersionWithRevision: x'') \<and>
   \<not> has_field ([] @ marker) \<and>
   getProjectVersion example_lib
       (machine [] (Contents ([] @ marker @ ''2019.4'' @ LF # ''m_EditorVersionWithRevision: x'')))
       ''proj''
     = Return ''2019.4''"
proof -
  note t = getProjectVersion_extraction [where lib = example_lib and projectPath = "''proj''"]
  have a: "Files (machine [] Absent) (versionFile example_lib ''proj'') = Absent"
    by (simp add: versionFile_example machine_simps)
  with t [where w = "machine [] Absent"]
  have 1: "getProjectVersion example_lib (machine [] Absent) ''proj''
      = Fatal (Text ''No ProjectVersion.txt'')"
    by blast
  have b: "Files (machine [] (Contents ''m_EditorVersion:'')) (versionFile example_lib ''proj'')
      = Contents ''m_EditorVersion:''"
    by (simp add: versionFile_example machine_simps)
  have nf: "\<not> has_field ''m_EditorVersion:''"
    by (simp add: FindSubmatch_none [symmetric] marker_def LF_def Let_def)
  with b t [where w = "machine [] (Contents ''m_EditorVersion:'')" and data = "''m_EditorVersion:''"]
  have 2: "getProjectVersion example_lib (machine [] (Contents ''m_EditorVersion:'')) ''proj''
      = Fatal (Text no_field)"
    by blast
  let ?d = "[] @ marker @ ''2019.4'' @ LF # ''m_EditorVersionWithRevision: x''"
  have c: "Files (machine [] (Contents ?d)) (versionFile example_lib ''proj'') = Contents ?d"
    by (simp only: versionFile_example machine_simps)
  have v: "''2019.4'' \<noteq> []" "LF \<notin> set ''2019.4''"
    "LF # ''m_EditorVersionWithRevision: x'' = [] \<or> hd (LF # ''m_EditorVersionWithRevision: x'') = LF"
    by (simp_all add: LF_def)
  from c marker_alone v
    t [where w = "machine [] (Contents ?d)" and pre = "[]" and v = "''2019.4''"
         and rest = "LF # ''m_EditorVersionWithRevision: x''"]
  have 3: "getProjectVersion example_lib (machine [] (Contents ?d)) ''proj'' = Return ''2019.4''"
    by blast
  from a 1 b nf 2 c marker_alone 3 show ?thesis by blast
qed

text \<open>
  C6: with the encoder and the decoder of the persisted document, when \<^verbatim>\<open>initialize\<close>
  returns, the configuration it returns has the default installation root and pattern,
  the configuration file holds the encoding of exactly that configuration, the decoder
  takes that encoding back to the configuration, and so decoding the file, and a start
  without \<^verbatim>\<open>--reload\<close> on the machine \<^verbatim>\<open>initialize\<close> leaves, yield the configuration that
  \<^verbatim>\<open>initialize\<close> returned and leave the machine as it is.
\<close>

theorem initialize_persists:
  assumes "initialize (spec_toml lib) w configDir = Return (config, w')"
  shows "ProgramDir config = ''C:/Program Files'' \<and>
         DirPattern config = ''^Unity(.+)$'' \<and>
         (\<exists>versions lg. loadVersions lib w defaultConfig = Return (versions, lg) \<and>
            Versions config = versions) \<and>
         w' = w\<lparr>Files := (Files w)(configPath lib configDir := Contents (Encode config))\<rparr> \<and>
         Files w' (configPath lib configDir) = Contents (Encode config) \<and>
         Decode (Encode config) = Inr config \<and>
         toml_DecodeFile (spec_toml lib) w' (configPath (spec_toml lib) configDir) = Inr config \<and>
         main_config (spec_toml lib) w' configDir False = Return (config, w')"
proof -
  from initialize_Return [OF assms] obtain versions lg doc where
    l: "loadVersions lib w defaultConfig = Return (versions, lg)" and
    c: "config = defaultConfig\<lparr>Versions := versions\<rparr>" and
    e: "toml_Encode (spec_toml lib) config = Inr doc" and
    w': "w' = w\<lparr>Files := (Files w)(configPath lib configDir := Contents doc)\<rparr>"
    by (auto simp: loadVersions_spec_toml configPath_spec_toml)
  from e have doc: "doc = Encode config"
    by (simp add: spec_toml_simps)
  from w' doc have f: "Files w' (configPath lib configDir) = Contents (Encode config)"
    by simp
  from l c have "finite (dom (Versions config))"
    by (auto dest: loadVersions_finite)
  then have r: "Decode (Encode config) = Inr config"
    by (rule Decode_Encode)
  from f have "toml_DecodeFile (spec_toml lib) w' (configPath lib configDir)
      = toml_Decode (spec_toml lib) (Encode config)"
    by (rule toml_DecodeFile_Contents)
  with r have d: "toml_DecodeFile (spec_toml lib) w' (configPath (spec_toml lib) configDir)
      = Inr config"
    by (simp add: spec_toml_simps configPath_spec_toml)
  then have m: "main_config (spec_toml lib) w' configDir False = Return (config, w')"
    by (simp add: main_config_def)
  from c have "ProgramDir config = ''C:/Program Files''" "DirPattern config = ''^Unity(.+)$''"
    "Versions config = versions"
    by (simp_all add: defaultConfig_def)
  with l w' doc f r d m show ?thesis by blast
qed

text \<open>
  The rebuild on the example machine writes the document with the one version 2019.4,
  the separators of its path escaped, and the next start loads the same configuration; on
  a machine whose installation root is empty the rebuild writes the document with an
  empty table, and the next start loads the default configuration with no version.
\<close>

theorem initialize_persists_witness:
  "initialize (spec_toml example_lib)
     (machine [Dir ''Git'' [File ''Unity.exe''], File ''Unity5.6'', unity_2019] Absent) example_dir
   = Return (example_config,
       (machine [Dir ''Git'' [File ''Unity.exe''], File ''Unity5.6'', unity_2019] Absent)
         \<lparr>Files := (Files (machine [Dir ''Git'' [File ''Unity.exe''], File ''Unity5.6'', unity_2019] Absent))
            (configPath example_lib example_dir := Contents (Encode example_config))\<rparr>) \<and>
   Encode example_config =
     ''ProgramDir = '' @ DQ # ''C:/Program Files'' @ DQ # LF #
     ''DirPattern = '' @ DQ # ''^Unity(.+)$'' @ DQ # LF #
     ''[Versions]'' @ LF #
     DQ # ''2019.4'' @ DQ # '' = '' @ DQ #
       ''C:'' @ Backslash # Backslash # ''Program Files'' @ Backslash # Backslash #
       ''Unity2019.4'' @ Backslash # Backslash # ''Editor'' @ Backslash # Backslash #
       ''Unity.exe'' @ DQ # [LF] \<and>
   Decode (Encode example_config) = Inr example_config \<and>
   main_config (spec_toml example_lib)
     ((machine [Dir ''Git'' [File ''Unity.exe''], File ''Unity5.6'', unity_2019] Absent)
         \<lparr>Files := (Files (machine [Dir ''Git'' [File ''Unity.exe''], File ''Unity5.6'', unity_2019] Absent))
            (configPath example_lib example_dir := Contents (Encode example_config))\<rparr>)
     example_dir False
   = Return (example_config,
       (machine [Dir ''Git'' [File ''Unity.exe''], File ''Unity5.6'', unity_2019] Absent)
         \<lparr>Files := (Files (machine [Dir ''Git'' [File ''Unity.exe''], File ''Unity5.6'', unity_2019] Absent))
            (configPath example_lib example_dir := Contents (Encode example_config))\<rparr>) \<and>
   initialize (spec_toml example_lib) (machine [] Absent) example_dir
   = Return (defaultConfig,
       (machine [] Absent)
         \<lparr>Files := (Files (machine [] Absent))
            (configPath example_lib example_dir := Contents (Encode defaultConfig))\<rparr>) \<and>
   Encode defaultConfig =
     ''ProgramDir = '' @ DQ # ''C:/Program Files'' @ DQ # LF #
     ''DirPattern = '' @ DQ # ''^Unity(.+)$'' @ DQ # LF #
     ''[Versions]'' @ [LF] \<and>
   Versions defaultConfig = Map.empty \<and>
   main_config (spec_toml example_lib)
     ((machine [] Absent)
         \<lparr>Files := (Files (machine [] Absent))
            (configPath example_lib example_dir := Contents (Encode defaultConfig))\<rparr>)
     example_dir False
   = Return (defaultConfig,
       (machine [] Absent)
         \<lparr>Files := (Files (machine [] Absent))
            (configPath example_lib example_dir := Contents (Encode defaultConfig))\<rparr>)"
proof -
  let ?w = "machine [Dir ''Git'' [File ''Unity.exe''], File ''Unity5.6'', unity_2019] Absent"
  let ?w' = "?w\<lparr>Files := (Files ?w)
      (configPath example_lib example_dir := Contents (Encode example_config))\<rparr>"
  let ?v = "machine [] Absent"
  let ?v' = "?v\<lparr>Files := (Files ?v)
      (configPath example_lib example_dir := Contents (Encode defaultConfig))\<rparr>"
  have i: "initialize (spec_toml example_lib) ?w example_dir = Return (example_config, ?w')"
    by (rule initialize_spec_toml_example)
  have j: "initialize (spec_toml example_lib) ?v example_dir = Return (defaultConfig, ?v')"
    by (rule initialize_spec_toml_empty_root)
  from initialize_persists [OF i]
  have 1: "Decode (Encode example_config) = Inr example_config"
    and 2: "main_config (spec_toml example_lib) ?w' example_dir False
      = Return (example_config, ?w')"
    by blast+
  from initialize_persists [OF j]
  have 3: "main_config (spec_toml example_lib) ?v' example_dir False
      = Return (defaultConfig, ?v')"
    by blast
  have 4: "Versions defaultConfig = Map.empty"
    by (simp add: defaultConfig_def)
  from i 1 2 j 3 4 Encode_example_config Encode_defaultConfig show ?thesis
    by (simp only: simp_thms)
qed

text \<open>
  C7: when the scan returns, every key of its mapping is the first capture group of the
  pattern on the name of a directory of the listing whose name the pattern matches, and
  the value is the path the search returned for that directory. Conversely, for every
  directory of the listing whose name the pattern matches the search has returned a path
  and, unless that path is empty, the first capture group of its name is a key; the key
  is mapped to that path when no other matching directory has the same capture. The scan
  of the listing is the scan of its matching directories alone, so that the other entries
  contribute nothing.
\<close>

theorem loadVersions_keys:
  assumes "loadVersions lib w config = Return (versions, lg)"
  shows "\<exists>r files.
      regexp_Compile lib (DirPattern config) = Some r \<and>
      ReadDir w (ProgramDir config) = Inr files \<and>
      (\<forall>k exe. versions k = Some exe \<longrightarrow>
         (\<exists>f\<in>set files. IsDir f \<and> 2 \<le> length (r (Name f)) \<and> k = r (Name f) ! 1 \<and>
            deepFind (filepath_Join lib) (path_Join lib (ProgramDir config) (Name f)) f
              ''Unity.exe'' = Return exe)) \<and>
      (\<forall>f\<in>set files. IsDir f \<and> 2 \<le> length (r (Name f)) \<longrightarrow>
         (\<exists>exe. deepFind (filepath_Join lib) (path_Join lib (ProgramDir config) (Name f)) f
                  ''Unity.exe'' = Return exe \<and>
            (exe \<noteq> [] \<longrightarrow>
               (\<exists>exe'. versions (r (Name f) ! 1) = Some exe') \<and>
               ((\<forall>g\<in>set files. IsDir g \<and> 2 \<le> length (r (Name g)) \<and>
                     r (Name g) ! 1 = r (Name f) ! 1 \<longrightarrow> g = f) \<longrightarrow>
                  versions (r (Name f) ! 1) = Some exe)))) \<and>
      loadVersions_range lib r config
        (filter (\<lambda>f. IsDir f \<and> 2 \<le> length (r (Name f))) files) (Map.empty, [])
        = Return (versions, lg)"
proof -
  from assms obtain r where r: "regexp_Compile lib (DirPattern config) = Some r"
    by (auto simp: loadVersions_def split: option.splits)
  with assms obtain files where f: "ReadDir w (ProgramDir config) = Inr files"
    by (auto simp: loadVersions_def split: sum.splits)
  from assms r f
  have l: "loadVersions_range lib r config files (Map.empty, []) = Return (versions, lg)"
    by (simp add: loadVersions_def)
  let ?find = "\<lambda>f. deepFind (filepath_Join lib) (path_Join lib (ProgramDir config) (Name f)) f
      ''Unity.exe''"
  have key_origin: "\<exists>f\<in>set files. IsDir f \<and> 2 \<le> length (r (Name f)) \<and> k = r (Name f) ! 1 \<and>
      ?find f = Return exe"
    if "versions k = Some exe" for k exe
    using loadVersions_range_keys [OF l that] by simp
  have dir_key: "\<exists>exe. ?find f = Return exe \<and>
      (exe \<noteq> [] \<longrightarrow>
         (\<exists>exe'. versions (r (Name f) ! 1) = Some exe') \<and>
         ((\<forall>g\<in>set files. IsDir g \<and> 2 \<le> length (r (Name g)) \<and>
               r (Name g) ! 1 = r (Name f) ! 1 \<longrightarrow> g = f) \<longrightarrow>
            versions (r (Name f) ! 1) = Some exe))"
    if m: "f \<in> set files" "IsDir f \<and> 2 \<le> length (r (Name f))" for f
  proof -
    from loadVersions_range_forward [OF l] m obtain exe where
      d: "?find f = Return exe" and k: "exe \<noteq> [] \<longrightarrow> r (Name f) ! 1 \<in> dom versions"
      by blast
    have "versions (r (Name f) ! 1) = Some exe"
      if ne: "exe \<noteq> []" and
        u: "\<forall>g\<in>set files. IsDir g \<and> 2 \<le> length (r (Name g)) \<and>
              r (Name g) ! 1 = r (Name f) ! 1 \<longrightarrow> g = f"
    proof -
      from k ne obtain exe' where v: "versions (r (Name f) ! 1) = Some exe'" by auto
      from key_origin [OF v] obtain g where "g \<in> set files" "IsDir g \<and> 2 \<le> length (r (Name g))"
        "r (Name f) ! 1 = r (Name g) ! 1" "?find g = Return exe'"
        by blast
      with u have "?find f = Return exe'" by auto
      with d v show ?thesis by simp
    qed
    with d k show ?thesis by auto
  qed
  from r f l key_origin dir_key show ?thesis
    by (simp add: loadVersions_range_filter)
qed

text \<open>
  A listing with a directory that does not match, a file named like an installation, and
  the installations of the versions 2019.4 and 5.6: the mapping has exactly the keys
  \<^verbatim>\<open>2019.4\<close> and \<^verbatim>\<open>5.6\<close>, each mapped to the executable of its installation.
\<close>

theorem loadVersions_keys_witness:
  "loadVersions example_lib (machine two_installations Absent) defaultConfig
     = Return ([''2019.4'' \<mapsto> unity_2019_exe, ''5.6'' \<mapsto> unity_56_exe], []) \<and>
   (\<exists>r files.
      regexp_Compile example_lib (DirPattern defaultConfig) = Some r \<and>
      ReadDir (machine two_installations Absent) (ProgramDir defaultConfig) = Inr files \<and>
      (\<exists>f\<in>set files. IsDir f \<and> 2 \<le> length (r (Name f)) \<and> ''2019.4'' = r (Name f) ! 1 \<and>
         deepFind (filepath_Join example_lib)
           (path_Join example_lib (ProgramDir defaultConfig) (Name f)) f ''Unity.exe''
           = Return unity_2019_exe) \<and>
      unity_56 \<in> set files \<and> IsDir unity_56 \<and> 2 \<le> length (r (Name unity_56)) \<and>
      (\<exists>exe. deepFind (filepath_Join example_lib)
           (path_Join example_lib (ProgramDir defaultConfig) (Name unity_56)) unity_56
           ''Unity.exe'' = Return exe \<and>
         (exe \<noteq> [] \<longrightarrow>
            (\<exists>exe'. [''2019.4'' \<mapsto> unity_2019_exe, ''5.6'' \<mapsto> unity_56_exe]
                     (r (Name unity_56) ! 1) = Some exe'))))"
proof -
  let ?w = "machine two_installations Absent"
  let ?m = "[''2019.4'' \<mapsto> unity_2019_exe, ''5.6'' \<mapsto> unity_56_exe]"
  let ?find = "\<lambda>f. deepFind (filepath_Join example_lib)
      (path_Join example_lib (ProgramDir defaultConfig) (Name f)) f ''Unity.exe''"
  have e: "loadVersions example_lib ?w defaultConfig = Return (?m, [])"
    by (rule loadVersions_two_installations)
  from loadVersions_keys [OF e] obtain r files where
    r: "regexp_Compile example_lib (DirPattern defaultConfig) = Some r" and
    f: "ReadDir ?w (ProgramDir defaultConfig) = Inr files" and
    k: "\<forall>k exe. ?m k = Some exe \<longrightarrow>
         (\<exists>f\<in>set files. IsDir f \<and> 2 \<le> length (r (Name f)) \<and> k = r (Name f) ! 1 \<and>
            ?find f = Return exe)" and
    d: "\<forall>f\<in>set files. IsDir f \<and> 2 \<le> length (r (Name f)) \<longrightarrow>
         (\<exists>exe. ?find f = Return exe \<and>
            (exe \<noteq> [] \<longrightarrow>
               (\<exists>exe'. ?m (r (Name f) ! 1) = Some exe') \<and>
               ((\<forall>g\<in>set files. IsDir g \<and> 2 \<le> length (r (Name g)) \<and>
                     r (Name g) ! 1 = r (Name f) ! 1 \<longrightarrow> g = f) \<longrightarrow>
                  ?m (r (Name f) ! 1) = Some exe)))"
    by blast
  from r have r': "r = FindStringSubmatch_default"
    by (simp add: example_lib_simps defaultConfig_simps)
  from f have f': "files = two_installations"
    by (simp add: machine_simps defaultConfig_simps)
  have "?m ''2019.4'' = Some unity_2019_exe"
    by simp
  with k have 1: "\<exists>f\<in>set files. IsDir f \<and> 2 \<le> length (r (Name f)) \<and>
      ''2019.4'' = r (Name f) ! 1 \<and> ?find f = Return unity_2019_exe"
    by blast
  have m: "unity_56 \<in> set files" "IsDir unity_56" "2 \<le> length (r (Name unity_56))"
    by (simp_all add: r' f' two_installations_def unity_56_simps)
  with d have 2: "\<exists>exe. ?find unity_56 = Return exe \<and>
      (exe \<noteq> [] \<longrightarrow> (\<exists>exe'. ?m (r (Name unity_56) ! 1) = Some exe'))"
    by blast
  from e r f 1 m 2 show ?thesis by blast
qed

text \<open>
  C8: the start of \<^verbatim>\<open>main\<close> either rebuilds or loads. With \<^verbatim>\<open>--reload\<close> it is the rebuild,
  whatever the file holds. Without it, a file that decodes is the configuration, and
  nothing is rebuilt or written; a file that is absent, or that does not decode, or any
  other failure of the load, leads to the rebuild, whose outcome does not depend on the
  error of the load.
\<close>

theorem main_config_load_or_rebuild:
  "(reload \<longrightarrow> main_config lib w configDir reload = initialize lib w configDir) \<and>
   (\<not> reload \<and> toml_DecodeFile lib w (configPath lib configDir) = Inr config \<longrightarrow>
      main_config lib w configDir reload = Return (config, w)) \<and>
   (\<not> reload \<and> Files w (configPath lib configDir) = Absent \<longrightarrow>
      main_config lib w configDir reload = initialize lib w configDir) \<and>
   (\<not> reload \<and> Files w (configPath lib configDir) = Contents doc \<and> toml_Decode lib doc = Inl err \<longrightarrow>
      main_config lib w configDir reload = initialize lib w configDir) \<and>
   (\<not> reload \<and> toml_DecodeFile lib w (configPath lib configDir) = Inl err \<longrightarrow>
      main_config lib w configDir reload = initialize lib w configDir)"
  by (simp add: main_config_def toml_DecodeFile_Contents toml_DecodeFile_Absent)

text \<open>
  On the example machine: a start with \<^verbatim>\<open>--reload\<close>, a start with no configuration file,
  and a start with a file that does not decode all rebuild the same configuration; a
  start with the example document loads it.
\<close>

theorem main_config_load_or_rebuild_witness:
  "main_config example_lib
     (machine [Dir ''Git'' [File ''Unity.exe''], File ''Unity5.6'', unity_2019] Absent)
     example_dir True
   = initialize example_lib
       (machine [Dir ''Git'' [File ''Unity.exe''], File ''Unity5.6'', unity_2019] Absent)
       example_dir \<and>
   Files (machine [Dir ''Git'' [File ''Unity.exe''], File ''Unity5.6'', unity_2019] Absent)
     (configPath example_lib example_dir) = Absent \<and>
   main_config example_lib
     (machine [Dir ''Git'' [File ''Unity.exe''], File ''Unity5.6'', unity_2019] Absent)
     example_dir False
   = initialize example_lib
       (machine [Dir ''Git'' [File ''Unity.exe''], File ''Unity5.6'', unity_2019] Absent)
       example_dir \<and>
   toml_Decode example_lib ''ProgramDir = '' = Inl ''toml: cannot decode'' \<and>
   main_config example_lib
     ((machine [] Absent)\<lparr>Files := (Files (machine [] Absent))
        (configPath example_lib example_dir := Contents ''ProgramDir = '')\<rparr>)
     example_dir False
   = initialize example_lib
       ((machine [] Absent)\<lparr>Files := (Files (machine [] Absent))
          (configPath example_lib example_dir := Contents ''ProgramDir = '')\<rparr>)
       example_dir \<and>
   toml_Decode example_lib ''example document'' = Inr example_config \<and>
   main_config example_lib
     ((machine [] Absent)\<lparr>Files := (Files (machine [] Absent))
        (configPath example_lib example_dir := Contents ''example document'')\<rparr>)
     example_dir False
   = Return (example_config,
       (machine [] Absent)\<lparr>Files := (Files (machine [] Absent))
         (configPath example_lib example_dir := Contents ''example document'')\<rparr>)"
proof -
  let ?w = "machine [Dir ''Git'' [File ''Unity.exe''], File ''Unity5.6'', unity_2019] Absent"
  let ?p = "configPath example_lib example_dir"
  let ?bad = "(machine [] Absent)\<lparr>Files := (Files (machine [] Absent))(?p := Contents ''ProgramDir = '')\<rparr>"
  let ?good = "(machine [] Absent)\<lparr>Files := (Files (machine [] Absent))(?p := Contents ''example document'')\<rparr>"
  note t = main_config_load_or_rebuild [where lib = example_lib and configDir = example_dir]
  from t [where reload = True and w = ?w]
  have 1: "main_config example_lib ?w example_dir True = initialize example_lib ?w example_dir"
    by blast
  have a: "Files ?w ?p = Absent"
    by (simp add: machine_def configPath_def example_lib_simps example_dir_def plain_Join_def
        FromSlash_def configFile_def)
  with t [where reload = False and w = ?w]
  have 2: "main_config example_lib ?w example_dir False = initialize example_lib ?w example_dir"
    by blast
  have b: "Files ?bad ?p = Contents ''ProgramDir = ''"
    by simp
  have bd: "toml_Decode example_lib ''ProgramDir = '' = Inl ''toml: cannot decode''"
    by (simp add: example_lib_def)
  from b bd t [where reload = False and w = ?bad and doc = "''ProgramDir = ''"
      and err = "''toml: cannot decode''"]
  have 3: "main_config example_lib ?bad example_dir False = initialize example_lib ?bad example_dir"
    by blast
  have gd: "toml_Decode example_lib ''example document'' = Inr example_config"
    by (simp add: example_lib_simps)
  have "Files ?good ?p = Contents ''example document''"
    by simp
  then have "toml_DecodeFile example_lib ?good ?p = Inr example_config"
    using gd by (simp add: toml_DecodeFile_Contents)
  with t [where reload = False and w = ?good and config = example_config]
  have 4: "main_config example_lib ?good example_dir False = Return (example_config, ?good)"
    by blast
  from 1 a 2 bd 3 gd 4 show ?thesis by blast
qed

text \<open>
  C9: the search does not depend on its target-name argument; the comparison is against
  the literal \<^verbatim>\<open>"Unity.exe"\<close>, so for every root and every name the result is the one
  for \<^verbatim>\<open>"Unity.exe"\<close>.
\<close>

theorem deepFind_ignores_name:
  "deepFind J root nd name = deepFind J root nd ''Unity.exe''"
  by (simp add: deepFind_def)

text \<open>
  Asked for \<^verbatim>\<open>Data.dll\<close>, the search still returns the path of \<^verbatim>\<open>Unity.exe\<close>.
\<close>

theorem deepFind_ignores_name_witness:
  "deepFind plain_Join ''C:/Program Files/Unity2019.4'' unity_2019 ''Data.dll'' =
     deepFind plain_Join ''C:/Program Files/Unity2019.4'' unity_2019 ''Unity.exe'' \<and>
   deepFind plain_Join ''C:/Program Files/Unity2019.4'' unity_2019 ''Data.dll'' =
     Return unity_2019_exe"
  using deepFind_ignores_name [of plain_Join "''C:/Program Files/Unity2019.4''" unity_2019 "''Data.dll''"]
  by (simp add: deepFind_unity_2019)

text \<open>
  C10: when the line of \<^verbatim>\<open>m_EditorVersion: \<close> ends in a carriage return and a line feed
  (and the pattern matches nowhere before it), the version returned is the rest of the
  line with the carriage return at its end; and when no key of the mapping holds a
  carriage return, opening the project ends with \<^verbatim>\<open>The version not found\<close>.
\<close>

theorem getProjectVersion_crlf:
  assumes "Files w (versionFile lib projectPath) = Contents (pre @ marker @ v @ CR # LF # rest)"
    and "\<not> has_field (pre @ marker)" and "LF \<notin> set v"
  shows "getProjectVersion lib w projectPath = Return (v @ [CR]) \<and>
         ((\<forall>k\<in>dom (Versions config). CR \<notin> set k) \<longrightarrow>
            openProject lib w config projectPath = Fatal (Text ''The version not found''))"
proof -
  have f: "Files w (versionFile lib projectPath)
      = Contents (pre @ marker @ (v @ [CR]) @ (LF # rest))"
    using assms(1) by simp
  have n: "v @ [CR] \<noteq> []" by simp
  have l: "LF \<notin> set (v @ [CR])"
    using assms(3) by (simp add: LF_def CR_def)
  have r: "LF # rest = [] \<or> hd (LF # rest) = LF" by simp
  from f assms(2) n l r have g: "getProjectVersion lib w projectPath = Return (v @ [CR])"
    by (rule getProjectVersion_found)
  have "openProject lib w config projectPath = Fatal (Text ''The version not found'')"
    if "\<forall>k\<in>dom (Versions config). CR \<notin> set k"
  proof -
    have "Versions config (v @ [CR]) = None"
    proof (cases "Versions config (v @ [CR])")
      case None
      then show ?thesis .
    next
      case (Some exe)
      then have "v @ [CR] \<in> dom (Versions config)" by (rule domI)
      with that have "CR \<notin> set (v @ [CR])" by blast
      then show ?thesis by simp
    qed
    with g show ?thesis by (simp add: openProject_def)
  qed
  with g show ?thesis by blast
qed

text \<open>
  The file of a project at version 2019.4, written with Windows line endings, against a
  mapping that has the key \<^verbatim>\<open>2019.4\<close>.
\<close>

theorem getProjectVersion_crlf_witness:
  "Files (machine [] (Contents ([] @ marker @ ''2019.4'' @ CR # LF # []))) (versionFile example_lib ''proj'')
     = Contents ([] @ marker @ ''2019.4'' @ CR # LF # []) \<and>
   \<not> has_field ([] @ marker) \<and>
   LF \<notin> set ''2019.4'' \<and>
   Versions example_config ''2019.4'' = Some unity_2019_exe \<and>
   getProjectVersion example_lib (machine [] (Contents ([] @ marker @ ''2019.4'' @ CR # LF # [])))
     ''proj'' = Return (''2019.4'' @ [CR]) \<and>
   openProject example_lib (machine [] (Contents ([] @ marker @ ''2019.4'' @ CR # LF # [])))
     example_config ''proj'' = Fatal (Text ''The version not found'')"
proof -
  let ?d = "[] @ marker @ ''2019.4'' @ CR # LF # []"
  have c: "Files (machine [] (Contents ?d)) (versionFile example_lib ''proj'') = Contents ?d"
    by (simp only: versionFile_example machine_simps)
  have l: "LF \<notin> set ''2019.4''"
    by (simp add: LF_def)
  have k: "Versions example_config ''2019.4'' = Some unity_2019_exe"
    by (simp add: example_config_def)
  have "dom (Versions example_config) = {''2019.4''}"
    by (simp add: example_config_def)
  then have d: "\<forall>k\<in>dom (Versions example_config). CR \<notin> set k"
    by (simp add: CR_def)
  from getProjectVersion_crlf [OF c marker_alone l, of example_config] d
  have "getProjectVersion example_lib (machine [] (Contents ?d)) ''proj''
      = Return (''2019.4'' @ [CR])"
    and "openProject example_lib (machine [] (Contents ?d)) example_config ''proj''
      = Fatal (Text ''The version not found'')"
    by blast+
  with c marker_alone l k show ?thesis by blast
qed

end
